theory Spec2Isabelle
  imports Main "HOL-Library.Word"
begin

unbundle bit_operations_syntax

section \<open>Syntax trees as the TypeScript parser hands them over\<close>

text \<open>
  The extension reads a tree built by \<^verbatim>\<open>ts.createSourceFile(fileName, text, Latest, true)\<close>;
  the last argument makes the parser set every node's \<^verbatim>\<open>parent\<close>. A node is a JavaScript
  object, so \<^verbatim>\<open>node.parent === sourceFile\<close> compares object identities: every node carries
  an identity \<open>nid\<close>, and \<open>parent\<close> holds the identity of the parent object (\<open>None\<close> for
  \<^verbatim>\<open>undefined\<close>, as at the root).

  Offsets are the values of \<^verbatim>\<open>getStart(sf, true)\<close> and \<^verbatim>\<open>getEnd()\<close>.
\<close>

record ident =
  id_getStart :: nat   \<comment> \<open>\<^verbatim>\<open>id.getStart(sf, true)\<close>\<close>
  id_getEnd :: nat     \<comment> \<open>\<^verbatim>\<open>id.getEnd()\<close>\<close>
  id_getText :: string \<comment> \<open>\<^verbatim>\<open>id.getText(sf)\<close>: the identifier as written in the source\<close>
  id_text :: string    \<comment> \<open>\<^verbatim>\<open>id.text\<close>\<close>

text \<open>The \<^verbatim>\<open>name\<close> of a variable declarator: \<^verbatim>\<open>ts.isIdentifier\<close> holds of the first
  alternative only; the other one stands for the object and array binding patterns.\<close>

datatype binding_name = Identifier ident | BindingPattern

record variable_declaration =
  vd_name :: binding_name
  vd_getStart :: nat
  vd_getEnd :: nat

record declaration_list =
  flags :: "32 word"
  declarations :: "variable_declaration list"

text \<open>The node kinds the code tells apart, each with the properties the code reads from it
  (a closed tagged union in place of the runtime type guards). \<open>OtherKind s\<close> is any other
  kind, the root's \<open>OtherKind ''SourceFile''\<close> among them; \<open>s\<close> is its name in
  \<^verbatim>\<open>ts.SyntaxKind\<close>.\<close>

datatype node_kind =
    ClassDeclaration "ident option"
  | InterfaceDeclaration "ident option"
  | EnumDeclaration "ident option"
  | FunctionDeclaration "ident option"
  | TypeAliasDeclaration "ident option"
  | VariableStatement declaration_list
  | OtherKind string

datatype node = Node
  (nid: nat)
  (parent: "nat option")
  (kind: node_kind)
  (getStart: nat)
  (getEnd: nat)
  (children: "node list")  \<comment> \<open>what \<^verbatim>\<open>ts.forEachChild\<close> enumerates, in its order\<close>

text \<open>The members of the enum \<^verbatim>\<open>ts.NodeFlags\<close> that the code reads. The enum belongs to the
  TypeScript library, so its values are a parameter of the model.\<close>

record node_flags =
  flag_Let :: "32 word"          \<comment> \<open>\<^verbatim>\<open>ts.NodeFlags.Let\<close>\<close>
  flag_Const :: "32 word"        \<comment> \<open>\<^verbatim>\<open>ts.NodeFlags.Const\<close>\<close>
  flag_BlockScoped :: "32 word"  \<comment> \<open>\<^verbatim>\<open>ts.NodeFlags.BlockScoped\<close>\<close>

fun isClassDeclaration :: "node \<Rightarrow> bool" where
  "isClassDeclaration n = (case kind n of ClassDeclaration _ \<Rightarrow> True | _ \<Rightarrow> False)"

fun isInterfaceDeclaration :: "node \<Rightarrow> bool" where
  "isInterfaceDeclaration n = (case kind n of InterfaceDeclaration _ \<Rightarrow> True | _ \<Rightarrow> False)"

fun isEnumDeclaration :: "node \<Rightarrow> bool" where
  "isEnumDeclaration n = (case kind n of EnumDeclaration _ \<Rightarrow> True | _ \<Rightarrow> False)"

fun isFunctionDeclaration :: "node \<Rightarrow> bool" where
  "isFunctionDeclaration n = (case kind n of FunctionDeclaration _ \<Rightarrow> True | _ \<Rightarrow> False)"

fun isTypeAliasDeclaration :: "node \<Rightarrow> bool" where
  "isTypeAliasDeclaration n = (case kind n of TypeAliasDeclaration _ \<Rightarrow> True | _ \<Rightarrow> False)"

fun isVariableStatement :: "node \<Rightarrow> bool" where
  "isVariableStatement n = (case kind n of VariableStatement _ \<Rightarrow> True | _ \<Rightarrow> False)"

section \<open>The declaration classifier\<close>

text \<open>The classifier next to the planner that records labelled targets
  (\<^verbatim>\<open>if (node.parent !== sourceFile) {return false;}\<close> and the flag tests in the order
  Const, Let, BlockScoped).\<close>

definition isTopLevelDeclaration :: "node_flags \<Rightarrow> node \<Rightarrow> node \<Rightarrow> bool" where
  "isTopLevelDeclaration nf node sourceFile =
     (if parent node \<noteq> Some (nid sourceFile) then False
      else if isClassDeclaration node \<or> isInterfaceDeclaration node \<or> isEnumDeclaration node
              \<or> isFunctionDeclaration node \<or> isTypeAliasDeclaration node then True
      else case kind node of
        VariableStatement declList \<Rightarrow>
          (let flgs = flags declList;
               block = ((flgs AND flag_Const nf) \<noteq> 0 \<or> (flgs AND flag_Let nf) \<noteq> 0
                         \<or> (flgs AND flag_BlockScoped nf) \<noteq> 0)
           in block \<and> length (declarations declList) > 0)
      | _ \<Rightarrow> False)"

text \<open>The other classifier of the repository: the parent test goes through the local function
  \<^verbatim>\<open>isTop = (n) => node.parent === sourceFile\<close>, whose body reads \<^verbatim>\<open>node\<close> and not its
  argument, and the flag tests come in the order BlockScoped, Const, Let.\<close>

definition isTopLevelDeclaration_v1 :: "node_flags \<Rightarrow> node \<Rightarrow> node \<Rightarrow> bool" where
  "isTopLevelDeclaration_v1 nf node sourceFile =
     (let isTop = (\<lambda>n :: node. parent node = Some (nid sourceFile)) in
      if \<not> isTop node then False
      else if isClassDeclaration node \<or> isInterfaceDeclaration node \<or> isEnumDeclaration node
              \<or> isFunctionDeclaration node \<or> isTypeAliasDeclaration node then True
      else case kind node of
        VariableStatement declList \<Rightarrow>
          (let isBlockScoped = ((flags declList AND flag_BlockScoped nf) \<noteq> 0
                                \<or> (flags declList AND flag_Const nf) \<noteq> 0
                                \<or> (flags declList AND flag_Let nf) \<noteq> 0)
           in if isBlockScoped \<and> length (declarations declList) > 0 then True else False)
      | _ \<Rightarrow> False)"





section \<open>The extraction planner\<close>

record target =
  t_start :: nat
  t_end :: nat
  t_label :: string
  t_kind :: string

text \<open>\<^verbatim>\<open>targets.push({ start, end, label, kind })\<close>, with the array passed along.\<close>

definition push :: "nat \<Rightarrow> nat \<Rightarrow> string \<Rightarrow> string \<Rightarrow> target list \<Rightarrow> target list" where
  "push start end' label knd targets =
     targets @ [\<lparr>t_start = start, t_end = end', t_label = label, t_kind = knd\<rparr>]"

text \<open>\<^verbatim>\<open>named.name\<close>: \<^verbatim>\<open>undefined\<close> on an object without that property.\<close>

fun declaration_name :: "node_kind \<Rightarrow> ident option" where
  "declaration_name (ClassDeclaration i) = i"
| "declaration_name (InterfaceDeclaration i) = i"
| "declaration_name (EnumDeclaration i) = i"
| "declaration_name (FunctionDeclaration i) = i"
| "declaration_name (TypeAliasDeclaration i) = i"
| "declaration_name _ = None"

text \<open>\<^verbatim>\<open>ts.SyntaxKind[n.kind]\<close>, the enum's reverse mapping. The member
  \<^verbatim>\<open>VariableStatement\<close> shares its number with the later marker \<^verbatim>\<open>FirstStatement\<close>, which
  is therefore the name the reverse mapping holds; the planner never asks for it.\<close>

fun SyntaxKind_name :: "node_kind \<Rightarrow> string" where
  "SyntaxKind_name (ClassDeclaration _) = ''ClassDeclaration''"
| "SyntaxKind_name (InterfaceDeclaration _) = ''InterfaceDeclaration''"
| "SyntaxKind_name (EnumDeclaration _) = ''EnumDeclaration''"
| "SyntaxKind_name (FunctionDeclaration _) = ''FunctionDeclaration''"
| "SyntaxKind_name (TypeAliasDeclaration _) = ''TypeAliasDeclaration''"
| "SyntaxKind_name (VariableStatement _) = ''FirstStatement''"
| "SyntaxKind_name (OtherKind s) = s"

text \<open>The local function \<^verbatim>\<open>visit\<close> of \<^verbatim>\<open>explodeDocument\<close>. It appends to the array
  \<^verbatim>\<open>targets\<close> of the enclosing function, which is passed in and returned here;
  \<^verbatim>\<open>ts.forEachChild(n, visit)\<close> calls \<^verbatim>\<open>visit\<close> on each child in turn (\<^verbatim>\<open>visit\<close> returns
  nothing, so the iteration never stops early).\<close>

function visit :: "node_flags \<Rightarrow> node \<Rightarrow> node \<Rightarrow> target list \<Rightarrow> target list" where
  "visit nf sf n targets =
     (if \<not> isTopLevelDeclaration nf n sf then fold (visit nf sf) (children n) targets
      else if \<not> isVariableStatement n then
        (let id = declaration_name (kind n);
             label = (case id of Some i \<Rightarrow> id_getText i | None \<Rightarrow> ''<anonymous>'')
         in push (case id of Some i \<Rightarrow> id_getStart i | None \<Rightarrow> getStart n)
                 (case id of Some i \<Rightarrow> id_getEnd i | None \<Rightarrow> getEnd n)
                 label (SyntaxKind_name (kind n)) targets)
      else
        (case kind n of
           VariableStatement declList \<Rightarrow>
             (case declarations declList of
                [] \<Rightarrow> targets
              | first # _ \<Rightarrow>
                  (case vd_name first of
                     Identifier i \<Rightarrow>
                       push (id_getStart i) (id_getEnd i) (id_text i) ''Variable'' targets
                   | BindingPattern \<Rightarrow>
                       push (vd_getStart first) (vd_getEnd first) ''<var>'' ''Variable'' targets))
         | _ \<Rightarrow> targets))"
  by pat_completeness auto
termination
proof (relation "measure (\<lambda>(nf, sf, n, targets). size n)")
  show "wf (measure (\<lambda>(nf, sf, n, targets). size n))"
    by simp
next
  fix sf n x :: node and targets acc :: "target list" and nf' :: node_flags
  assume "x \<in> set (children n)"
  then have "size x < size n"
    by (cases n) (auto dest: size_list_estimation' [where f = size and y = "size x"])
  then show "((nf', sf, x, acc), (nf', sf, n, targets)) \<in> measure (\<lambda>(nf, sf, n, targets). size n)"
    by simp
qed

text \<open>\<^verbatim>\<open>const targets = []; ... ts.forEachChild(sf, visit);\<close>\<close>

definition collect_targets :: "node_flags \<Rightarrow> node \<Rightarrow> target list" where
  "collect_targets nf sf = fold (visit nf sf) (children sf) []"

text \<open>\<^verbatim>\<open>Array.prototype.sort\<close> with a comparator: a stable sort, where a result of the
  comparator that is not positive leaves its first argument in front. Written as insertion
  from the right, each element going in front of the first one it does not have to follow.\<close>

fun insert_by :: "('a \<Rightarrow> 'a \<Rightarrow> int) \<Rightarrow> 'a \<Rightarrow> 'a list \<Rightarrow> 'a list" where
  "insert_by cmp x [] = [x]"
| "insert_by cmp x (y # ys) = (if cmp x y \<le> 0 then x # y # ys else y # insert_by cmp x ys)"

definition array_sort :: "('a \<Rightarrow> 'a \<Rightarrow> int) \<Rightarrow> 'a list \<Rightarrow> 'a list" where
  "array_sort cmp xs = foldr (insert_by cmp) xs []"

text \<open>\<^verbatim>\<open>targets.sort((a, b) => b.start - a.start)\<close>\<close>

definition sort_targets :: "target list \<Rightarrow> target list" where
  "sort_targets targets = array_sort (\<lambda>a b. int (t_start b) - int (t_start a)) targets"

text \<open>The plan that \<^verbatim>\<open>explodeDocument\<close> runs through: the collected targets after the sort.\<close>

definition extraction_plan :: "node_flags \<Rightarrow> node \<Rightarrow> target list" where
  "extraction_plan nf sf = sort_targets (collect_targets nf sf)"

section \<open>Shape of a parsed file\<close>

text \<open>All nodes strictly below a node, and the node with them.\<close>

fun descendants :: "node \<Rightarrow> node list" where
  "descendants (Node i p k s e cs) = concat (map (\<lambda>c. c # descendants c) cs)"

definition nodes_of :: "node \<Rightarrow> node list" where
  "nodes_of n = n # descendants n"

text \<open>What \<^verbatim>\<open>setParentNodes\<close> guarantees: each child points to the node it hangs under.\<close>

fun parent_links :: "node \<Rightarrow> bool" where
  "parent_links (Node i p k s e cs) = list_all (\<lambda>c. parent c = Some i \<and> parent_links c) cs"

text \<open>A parsed file: parent links are set, distinct nodes are distinct objects, and the root
  has no parent.\<close>

definition parsed_tree :: "node \<Rightarrow> bool" where
  "parsed_tree sf = (parent_links sf \<and> distinct (map nid (nodes_of sf)) \<and> parent sf = None)"

text \<open>Offsets of a parsed file: a node ends no earlier than it starts, the name of a
  declaration lies inside the declaration, the first declarator inside its statement and its
  name inside the declarator; the statements of the file follow one another in the text.\<close>

definition ident_inside :: "ident \<Rightarrow> nat \<Rightarrow> nat \<Rightarrow> bool" where
  "ident_inside i lo hi = (lo \<le> id_getStart i \<and> id_getStart i \<le> id_getEnd i \<and> id_getEnd i \<le> hi)"

definition span_inside :: "node \<Rightarrow> bool" where
  "span_inside n =
     (getStart n \<le> getEnd n \<and>
      (case kind n of
         VariableStatement declList \<Rightarrow>
           (case declarations declList of
              [] \<Rightarrow> True
            | first # _ \<Rightarrow>
                getStart n \<le> vd_getStart first \<and> vd_getStart first \<le> vd_getEnd first
                \<and> vd_getEnd first \<le> getEnd n
                \<and> (case vd_name first of
                       Identifier i \<Rightarrow> ident_inside i (vd_getStart first) (vd_getEnd first)
                     | BindingPattern \<Rightarrow> True))
       | k \<Rightarrow>
           (case declaration_name k of
              None \<Rightarrow> True
            | Some i \<Rightarrow> ident_inside i (getStart n) (getEnd n))))"

definition parsed_ranges :: "node \<Rightarrow> bool" where
  "parsed_ranges sf =
     (list_all span_inside (children sf)
      \<and> sorted_wrt (\<lambda>a b. getEnd a \<le> getStart b) (children sf))"

text \<open>Two half-open ranges share an offset.\<close>

definition overlap :: "target \<Rightarrow> target \<Rightarrow> bool" where
  "overlap a b = (max (t_start a) (t_start b) < min (t_end a) (t_end b))"

text \<open>The qualifying top-level declarations of a file.\<close>

definition qualifying :: "node_flags \<Rightarrow> node \<Rightarrow> node list" where
  "qualifying nf sf = filter (\<lambda>n. isTopLevelDeclaration nf n sf) (children sf)"

text \<open>The range of a target lies inside a node.\<close>

definition within :: "target \<Rightarrow> node \<Rightarrow> bool" where
  "within t c = (getStart c \<le> t_start t \<and> t_start t \<le> t_end t \<and> t_end t \<le> getEnd c)"

declare visit.simps [simp del]

section \<open>The editor and its collaborators\<close>

text \<open>\<^verbatim>\<open>explodeDocument\<close> talks to the editor: it reads the active editor and its document,
  writes to an output channel, shows notifications, and runs editor commands that may reject.
  What it does is recorded as a trace of events, oldest first; what the editor answers is
  given by the \<open>host\<close>, whose answers may depend on everything that happened before (the
  trace up to and including the call).\<close>

type_synonym position = "nat \<times> nat"  \<comment> \<open>line and character\<close>

record text_document =
  uri_fsPath :: string
  fileName :: string
  languageId :: string
  getText :: string
  positionAt :: "nat \<Rightarrow> position"

record text_editor =
  document :: text_document

text \<open>A \<^verbatim>\<open>vscode.CodeAction\<close>: its title, the value of its kind, its workspace edit and the
  identifier of its command, as far as it has them. What the edit holds and what the command
  is called with are left out; the code hands them on unread.\<close>

record code_action =
  title :: string
  action_kind :: "string option"
  action_edit :: "string option"
  action_command :: "string option"

text \<open>What a \<^verbatim>\<open>catch (e)\<close> can receive. A rejected command gives any JavaScript value: an
  \<^verbatim>\<open>Error\<close> with its message, \<^verbatim>\<open>null\<close>, \<^verbatim>\<open>undefined\<close>, or any other value, of which the model
  keeps \<^verbatim>\<open>String(e)\<close> and, if it has a property \<^verbatim>\<open>message\<close>, that property as a template
  literal prints it.\<close>

datatype js_value =
    ErrorObject string
  | OtherValue string "string option"
  | JsNull
  | JsUndefined

text \<open>The \<^verbatim>\<open>TypeError\<close> that reading a property of \<^verbatim>\<open>null\<close> or \<^verbatim>\<open>undefined\<close> raises, with
  the message of the engine that runs extensions.\<close>

definition cannot_read_message :: "js_value \<Rightarrow> js_value" where
  "cannot_read_message v =
     ErrorObject (''Cannot read properties of ''
                  @ (case v of JsNull \<Rightarrow> ''null'' | _ \<Rightarrow> ''undefined'')
                  @ '' (reading '' @ [CHR 0x27] @ ''message'' @ [CHR 0x27] @ '')'')"

text \<open>\<^verbatim>\<open>${(e as Error).message}\<close>: the cast does nothing at run time, so this is a plain
  property read. \<open>Inl\<close> is what the read throws.\<close>

fun read_message :: "js_value \<Rightarrow> js_value + string" where
  "read_message (ErrorObject m) = Inr m"
| "read_message (OtherValue s (Some m)) = Inr m"
| "read_message (OtherValue s None) = Inr ''undefined''"
| "read_message JsNull = Inl (cannot_read_message JsNull)"
| "read_message JsUndefined = Inl (cannot_read_message JsUndefined)"

text \<open>\<^verbatim>\<open>err instanceof Error ? err.message : String(err)\<close>\<close>

fun error_text :: "js_value \<Rightarrow> string" where
  "error_text (ErrorObject m) = m"
| "error_text (OtherValue s _) = s"
| "error_text JsNull = ''null''"
| "error_text JsUndefined = ''undefined''"

datatype event =
    OutputShow  \<comment> \<open>\<^verbatim>\<open>out().show(true)\<close>\<close>
  | Log string  \<comment> \<open>\<^verbatim>\<open>log(msg)\<close>: a line on the output channel and the console, after a time stamp\<close>
  | ShowErrorMessage string
  | ShowInformationMessage string
  | ShowWarningMessage string
  | ActivateExtension string  \<comment> \<open>\<^verbatim>\<open>tsExt.activate()\<close>\<close>
  | Sleep nat
  | CreateSourceFile string  \<comment> \<open>\<^verbatim>\<open>ts.createSourceFile(doc.fileName, text, ...)\<close>\<close>
  | SetSelection position position  \<comment> \<open>\<^verbatim>\<open>editor.selection = new vscode.Selection(s, e)\<close>\<close>
  | RevealRange position position
  | WithProgress string
  | ProgressReport string
  | ExecuteCodeActionProvider string position position "string option"
      \<comment> \<open>the command \<^verbatim>\<open>vscode.executeCodeActionProvider\<close> on a document, a range and a kind\<close>
  | ExecuteCodeAction code_action  \<comment> \<open>the command \<^verbatim>\<open>vscode.executeCodeAction\<close>\<close>
  | EditorActionCodeAction string  \<comment> \<open>the command \<^verbatim>\<open>editor.action.codeAction\<close> with a kind\<close>
  | ApplyEdit string  \<comment> \<open>\<^verbatim>\<open>vscode.workspace.applyEdit(action.edit, ...)\<close>\<close>
  | ExecuteCommand string  \<comment> \<open>\<^verbatim>\<open>vscode.commands.executeCommand(action.command.command, ...)\<close>\<close>

record host =
  NodeFlags :: node_flags
  activeTextEditor :: "text_editor option"
  getExtension :: "string \<Rightarrow> string option"
    \<comment> \<open>\<^verbatim>\<open>vscode.extensions.getExtension(id)\<close>: the \<^verbatim>\<open>id\<close> of the extension found\<close>
  activate :: "event list \<Rightarrow> js_value + unit"
  getDiagnostics :: "event list \<Rightarrow> bool"
    \<comment> \<open>whether \<^verbatim>\<open>vscode.languages.getDiagnostics(doc.uri)\<close> is not \<^verbatim>\<open>undefined\<close>\<close>
  createSourceFile :: "string \<Rightarrow> string \<Rightarrow> node"
  newFile_value :: string
    \<comment> \<open>\<^verbatim>\<open>vscode.CodeActionKind.RefactorMove.append("newFile").value\<close>\<close>
  contains_newFile :: "string \<Rightarrow> bool"
    \<comment> \<open>\<^verbatim>\<open>vscode.CodeActionKind.RefactorMove.append("newFile").contains(k)\<close>\<close>
  executeCodeActionProvider :: "event list \<Rightarrow> js_value + code_action list option"
  executeCodeAction :: "event list \<Rightarrow> js_value + unit"
  editorActionCodeAction :: "event list \<Rightarrow> js_value + unit"
  applyEdit :: "event list \<Rightarrow> js_value + unit"
  executeCommand :: "event list \<Rightarrow> js_value + unit"

definition log :: "string \<Rightarrow> event list \<Rightarrow> event list" where
  "log msg tr = tr @ [Log msg]"

text \<open>A number inside a template literal: its decimal digits.\<close>

function show_nat :: "nat \<Rightarrow> string" where
  "show_nat n =
     (if n < 10 then [char_of (48 + n)] else show_nat (n div 10) @ [char_of (48 + n mod 10)])"
  by pat_completeness auto
termination
  by (relation "measure id") auto

declare show_nat.simps [simp del]

definition show_position :: "position \<Rightarrow> string" where
  "show_position p = show_nat (fst p) @ '':'' @ show_nat (snd p)"

text \<open>\<^verbatim>\<open>sel.start\<close> and \<^verbatim>\<open>sel.end\<close> of \<^verbatim>\<open>new vscode.Selection(anchor, active)\<close>: a range
  keeps its two positions in order.\<close>

definition isBefore :: "position \<Rightarrow> position \<Rightarrow> bool" where
  "isBefore a b = (fst a < fst b \<or> (fst a = fst b \<and> snd a < snd b))"

definition range_start :: "position \<Rightarrow> position \<Rightarrow> position" where
  "range_start a b = (if isBefore a b then a else b)"

definition range_end :: "position \<Rightarrow> position \<Rightarrow> position" where
  "range_end a b = (if isBefore a b then b else a)"

definition isTSLike :: "text_document \<Rightarrow> bool" where
  "isTSLike doc =
     (languageId doc = ''typescript'' \<or> languageId doc = ''typescriptreact''
      \<or> languageId doc = ''javascript'' \<or> languageId doc = ''javascriptreact'')"

text \<open>The loop \<^verbatim>\<open>for (let i = 0; i < 20; i++)\<close> of \<^verbatim>\<open>waitForTypeScriptReady\<close>, from \<open>i\<close> on,
  with the statement after it.\<close>

function diagnostics_loop :: "host \<Rightarrow> text_document \<Rightarrow> nat \<Rightarrow> event list \<Rightarrow> event list" where
  "diagnostics_loop h doc i tr =
     (if i < 20 then
        (if getDiagnostics h tr
         then log (''Diagnostics check '' @ show_nat (i + 1) @ '' ok for '' @ uri_fsPath doc) tr
         else diagnostics_loop h doc (i + 1) (tr @ [Sleep 100]))
      else log ''Warning: diagnostics ping loop ended without confirmation'' tr)"
  by pat_completeness auto
termination
  by (relation "measure (\<lambda>(h, doc, i, tr). 20 - i)") auto

declare diagnostics_loop.simps [simp del]

text \<open>\<^verbatim>\<open>waitForTypeScriptReady(doc)\<close>. The handler around \<^verbatim>\<open>tsExt.activate()\<close> reads the message
  of what it caught; when that read throws, the function is left by the \<^verbatim>\<open>TypeError\<close>.\<close>

definition waitForTypeScriptReady ::
  "host \<Rightarrow> text_document \<Rightarrow> event list \<Rightarrow> (js_value + unit) \<times> event list" where
  "waitForTypeScriptReady h doc tr =
     (case getExtension h ''vscode.typescript-language-features'' of
        None \<Rightarrow>
          (Inr (), diagnostics_loop h doc 0
             (log ''TypeScript extension vscode.typescript-language-features not found'' tr))
      | Some ext_id \<Rightarrow>
          (let tr1 = log (''Activating TypeScript extension '' @ ext_id) tr
                       @ [ActivateExtension ext_id]
           in case activate h tr1 of
                Inr _ \<Rightarrow>
                  (Inr (), diagnostics_loop h doc 0 (log ''TypeScript extension activated'' tr1))
              | Inl e \<Rightarrow>
                  (case read_message e of
                     Inl thrown \<Rightarrow> (Inl thrown, tr1)
                   | Inr m \<Rightarrow>
                       (Inr (), diagnostics_loop h doc 0
                          (log (''TypeScript extension activation error: '' @ m) tr1)))))"

definition KIND :: string where
  "KIND = ''refactor.move.newFile''"

text \<open>\<^verbatim>\<open>x.kind && RefactorMove.append("newFile").contains(x.kind)\<close>\<close>

definition kind_is_newFile :: "host \<Rightarrow> code_action \<Rightarrow> bool" where
  "kind_is_newFile h x = (case action_kind x of None \<Rightarrow> False | Some k \<Rightarrow> contains_newFile h k)"

text \<open>\<^verbatim>\<open>/Move to a new file/i.test(s)\<close>: the words occur somewhere in \<open>s\<close>, letters compared
  without regard to case.\<close>

definition lower_case :: "char \<Rightarrow> char" where
  "lower_case c =
     (let k = (of_char c :: nat) in if 65 \<le> k \<and> k \<le> 90 then char_of (k + 32) else c)"

fun occurs_in :: "string \<Rightarrow> string \<Rightarrow> bool" where
  "occurs_in pat [] = (pat = [])"
| "occurs_in pat (c # cs) = (take (length pat) (c # cs) = pat \<or> occurs_in pat cs)"

definition move_to_a_new_file_test :: "string \<Rightarrow> bool" where
  "move_to_a_new_file_test s =
     occurs_in (map lower_case ''Move to a new file'') (map lower_case s)"

text \<open>The second half of \<^verbatim>\<open>queryMoveNewFileActions\<close>, after its \<^verbatim>\<open>try\<close>: the query without a
  kind. It stands outside any handler of the function, so its rejection leaves the function.\<close>

definition query_without_kind ::
  "host \<Rightarrow> text_document \<Rightarrow> position \<Rightarrow> position \<Rightarrow> event list
     \<Rightarrow> (js_value + code_action list) \<times> event list" where
  "query_without_kind h doc anchor active tr =
     (let tr1 = log ''Query provider without kind and filter client-side'' tr
                  @ [ExecuteCodeActionProvider (uri_fsPath doc) anchor active None]
      in case executeCodeActionProvider h tr1 of
           Inl e \<Rightarrow> (Inl e, tr1)
         | Inr r \<Rightarrow>
             (let any = (case r of None \<Rightarrow> [] | Some a \<Rightarrow> a);
                  filtered = filter (\<lambda>x. kind_is_newFile h x
                                          \<or> move_to_a_new_file_test (title x)) any
              in (Inr filtered,
                  log (''Provider no-kind returned '' @ show_nat (length any)
                       @ '' actions, filtered to '' @ show_nat (length filtered)) tr1)))"

text \<open>\<^verbatim>\<open>queryMoveNewFileActions(doc, sel)\<close>, the selection given by its anchor and its active
  end. The first query sits in a \<^verbatim>\<open>try\<close>; its handler logs the message of what it caught,
  without a label, and the function goes on to the second query. When reading the message
  throws, the function is left by the \<^verbatim>\<open>TypeError\<close>.\<close>

definition queryMoveNewFileActions ::
  "host \<Rightarrow> text_document \<Rightarrow> position \<Rightarrow> position \<Rightarrow> event list
     \<Rightarrow> (js_value + code_action list) \<times> event list" where
  "queryMoveNewFileActions h doc anchor active tr =
     (let tr1 = log (''Query provider with kind '' @ KIND @ '' at ''
                     @ show_position (range_start anchor active) @ ''-''
                     @ show_position (range_end anchor active)) tr
                  @ [ExecuteCodeActionProvider (uri_fsPath doc) anchor active (Some KIND)]
      in case executeCodeActionProvider h tr1 of
           Inl e \<Rightarrow>
             (case read_message e of
                Inl thrown \<Rightarrow> (Inl thrown, tr1)
              | Inr m \<Rightarrow>
                  query_without_kind h doc anchor active
                    (log (''Provider kind query rejected: '' @ m) tr1))
         | Inr r \<Rightarrow>
             (let a = (case r of None \<Rightarrow> [] | Some a \<Rightarrow> a);
                  filtered = filter (kind_is_newFile h) a;
                  tr2 = log (''Provider returned '' @ show_nat (length a)
                             @ '' actions, filtered to '' @ show_nat (length filtered)
                             @ '' by kind'') tr1
              in if length filtered \<noteq> 0 then (Inr filtered, tr2)
                 else query_without_kind h doc anchor active tr2))"

text \<open>\<^verbatim>\<open>executeEditorCodeAction(kind)\<close>: the command runs inside \<^verbatim>\<open>try\<close>; the handler logs the
  message of what it caught and the function returns \<^verbatim>\<open>false\<close>. When reading the message
  throws, the function is left by the \<^verbatim>\<open>TypeError\<close>.\<close>

definition executeEditorCodeAction ::
  "host \<Rightarrow> string \<Rightarrow> event list \<Rightarrow> (js_value + bool) \<times> event list" where
  "executeEditorCodeAction h knd tr =
     (let tr1 = log (''Invoke editor.action.codeAction with kind '' @ knd @ '' and apply first'') tr
                  @ [EditorActionCodeAction knd]
      in case editorActionCodeAction h tr1 of
           Inr _ \<Rightarrow> (Inr True, tr1)
         | Inl e \<Rightarrow>
             (case read_message e of
                Inl thrown \<Rightarrow> (Inl thrown, tr1)
              | Inr m \<Rightarrow> (Inr False, log (''editor.action.codeAction failed: '' @ m) tr1)))"

subsection \<open>One round of the loop over the targets\<close>

text \<open>From the head of the loop body to the \<^verbatim>\<open>try\<close>: selection, reveal, progress and log.
  \<open>idx\<close> is the value of the counter after \<^verbatim>\<open>++done\<close>.\<close>

definition announce_target ::
  "text_document \<Rightarrow> nat \<Rightarrow> nat \<Rightarrow> target \<Rightarrow> event list \<Rightarrow> event list" where
  "announce_target doc len idx t tr =
     (let s = positionAt doc (t_start t); e = positionAt doc (t_end t) in
      log (''Processing '' @ show_nat idx @ ''/'' @ show_nat len @ '' label='' @ t_label t
           @ '' set selection and reveal'')
        (tr @ [SetSelection s e, RevealRange s e,
               ProgressReport (''Processing '' @ show_nat idx @ ''/'' @ show_nat len @ '' ''
                               @ t_label t)]))"

text \<open>The body of the \<^verbatim>\<open>try\<close>: query, then run the first action found. The result is the
  value of \<^verbatim>\<open>usedProvider\<close> when the block is left normally, and the value thrown when it is
  left by a rejection.\<close>

definition provider_path ::
  "host \<Rightarrow> text_document \<Rightarrow> target \<Rightarrow> event list \<Rightarrow> (js_value + bool) \<times> event list" where
  "provider_path h doc t tr =
     (case queryMoveNewFileActions h doc (positionAt doc (t_start t)) (positionAt doc (t_end t)) tr
      of
        (Inl err, tr1) \<Rightarrow> (Inl err, tr1)
      | (Inr actions, tr1) \<Rightarrow>
          (let tr2 = log (''Provider path candidate count for '' @ t_label t @ '': ''
                          @ show_nat (length actions)) tr1
           in case actions of
                [] \<Rightarrow> (Inr False, tr2)
              | action # _ \<Rightarrow>
                  (let kindStr = (case action_kind action of Some k \<Rightarrow> k | None \<Rightarrow> ''(no kind)'');
                       tr3 = log (''Executing CodeAction via vscode.executeCodeAction title=''
                                  @ [CHR 0x22] @ title action @ [CHR 0x22] @ '' kind=''
                                  @ [CHR 0x22] @ kindStr @ [CHR 0x22]) tr2
                               @ [ExecuteCodeAction action]
                   in case executeCodeAction h tr3 of
                        Inl err \<Rightarrow> (Inl err, tr3)
                      | Inr _ \<Rightarrow> (Inr True, tr3 @ [Sleep 120]))))"

text \<open>The \<^verbatim>\<open>try\<close> with its handler
  \<^verbatim>\<open>catch (e) { log(`Provider execute failed for ${t.label}: ${(e as Error).message}`) }\<close>.
  When reading the message throws, the round is left by the \<^verbatim>\<open>TypeError\<close>.\<close>

definition try_provider ::
  "host \<Rightarrow> text_document \<Rightarrow> target \<Rightarrow> event list \<Rightarrow> (js_value + bool) \<times> event list" where
  "try_provider h doc t tr =
     (case provider_path h doc t tr of
        (Inr usedProvider, tr1) \<Rightarrow> (Inr usedProvider, tr1)
      | (Inl e, tr1) \<Rightarrow>
          (case read_message e of
             Inl thrown \<Rightarrow> (Inl thrown, tr1)
           | Inr m \<Rightarrow>
               (Inr False, log (''Provider execute failed for '' @ t_label t @ '': '' @ m) tr1)))"

text \<open>The rest of the loop body, after \<^verbatim>\<open>if (usedProvider) {continue;}\<close>. The call of
  \<^verbatim>\<open>executeEditorCodeAction\<close> stands outside any handler.\<close>

definition fallback_path ::
  "host \<Rightarrow> target \<Rightarrow> event list \<Rightarrow> (js_value + unit) \<times> event list" where
  "fallback_path h t tr =
     (let tr1 = log (''No provider-executed action for '' @ t_label t
                     @ ''. Fallback to editor.action.codeAction kind=refactor.move.newFile'') tr
      in case executeEditorCodeAction h ''refactor.move.newFile'' tr1 of
           (Inl thrown, tr2) \<Rightarrow> (Inl thrown, tr2)
         | (Inr ok, tr2) \<Rightarrow>
             (if \<not> ok
              then (Inr (), log (''Fallback codeAction executor did not apply for '' @ t_label t) tr2)
              else (Inr (), log (''Fallback applied for '' @ t_label t) tr2 @ [Sleep 150])))"

text \<open>The loop body.\<close>

definition process_target ::
  "host \<Rightarrow> text_document \<Rightarrow> nat \<Rightarrow> nat \<Rightarrow> target \<Rightarrow> event list
     \<Rightarrow> (js_value + unit) \<times> event list" where
  "process_target h doc len idx t tr =
     (case try_provider h doc t (announce_target doc len idx t tr) of
        (Inl thrown, tr1) \<Rightarrow> (Inl thrown, tr1)
      | (Inr usedProvider, tr1) \<Rightarrow>
          (if usedProvider then (Inr (), tr1) else fallback_path h t tr1))"

text \<open>\<^verbatim>\<open>for (const t of targets)\<close> with the counter \<^verbatim>\<open>done\<close>; a round that throws ends the
  loop.\<close>

fun process_targets ::
  "host \<Rightarrow> text_document \<Rightarrow> nat \<Rightarrow> nat \<Rightarrow> target list \<Rightarrow> event list
     \<Rightarrow> (js_value + unit) \<times> event list" where
  "process_targets h doc len dn [] tr = (Inr (), tr)"
| "process_targets h doc len dn (t # ts) tr =
     (case process_target h doc len (dn + 1) t tr of
        (Inl thrown, tr1) \<Rightarrow> (Inl thrown, tr1)
      | (Inr _, tr1) \<Rightarrow> process_targets h doc len (dn + 1) ts tr1)"

text \<open>\<^verbatim>\<open>targets.forEach((t, i) => log(`Decl ${i + 1}/${targets.length} ...`))\<close>\<close>

fun log_decls :: "text_document \<Rightarrow> nat \<Rightarrow> nat \<Rightarrow> target list \<Rightarrow> event list \<Rightarrow> event list" where
  "log_decls doc len i [] tr = tr"
| "log_decls doc len i (t # ts) tr =
     log_decls doc len (i + 1) ts
       (log (''Decl '' @ show_nat (i + 1) @ ''/'' @ show_nat len @ '' label='' @ t_label t
             @ '' kind='' @ t_kind t @ '' range='' @ show_position (positionAt doc (t_start t))
             @ ''-'' @ show_position (positionAt doc (t_end t))) tr)"

subsection \<open>The command itself\<close>

text \<open>The result is \<open>Inr ()\<close> when the promise of \<^verbatim>\<open>explodeDocument\<close> resolves, and \<open>Inl v\<close>
  when it rejects with \<open>v\<close>. Neither the wait for the TypeScript extension nor the loop under
  \<^verbatim>\<open>withProgress\<close> stands in a \<^verbatim>\<open>try\<close>.\<close>

definition explodeDocument :: "host \<Rightarrow> event list \<Rightarrow> (js_value + unit) \<times> event list" where
  "explodeDocument h tr0 =
     (let tr1 = log ''==== Explode Document invoked ===='' (tr0 @ [OutputShow]) in
      case activeTextEditor h of
        None \<Rightarrow>
          (let msg = ''Explode Document: No active editor''
           in (Inr (), log msg tr1 @ [ShowErrorMessage msg]))
      | Some editor \<Rightarrow>
          (let doc = document editor;
               tr2 = log (''Active document '' @ uri_fsPath doc @ '' lang='' @ languageId doc) tr1
           in if \<not> isTSLike doc then
                (let msg = ''Explode Document: TS or JS files only''
                 in (Inr (), log msg tr2 @ [ShowErrorMessage msg]))
              else
                (case waitForTypeScriptReady h doc tr2 of
                   (Inl thrown, tr3) \<Rightarrow> (Inl thrown, tr3)
                 | (Inr _, tr3) \<Rightarrow>
                     (let sf = createSourceFile h (fileName doc) (getText doc);
                          tr4 = tr3 @ [CreateSourceFile (fileName doc)];
                          targets = collect_targets (NodeFlags h) sf
                      in if length targets = 0 then
                           (let msg = ''Explode Document: No top-level declarations found''
                            in (Inr (), log msg tr4 @ [ShowInformationMessage msg]))
                         else
                           (let plan = sort_targets targets;
                                tr5 = log (''Found '' @ show_nat (length plan)
                                           @ '' top-level decls'') tr4;
                                tr6 = log_decls doc (length plan) 0 plan tr5;
                                tr7 = tr6 @ [WithProgress ''Explode Document running'']
                            in case process_targets h doc (length plan) 0 plan tr7 of
                                 (Inl thrown, tr8) \<Rightarrow> (Inl thrown, tr8)
                               | (Inr _, tr8) \<Rightarrow>
                                   (Inr (),
                                    log ''Explode Document finished'' tr8
                                      @ [ShowInformationMessage
                                           ''Explode Document finished. See the Output panel for logs'']))))))"

text \<open>Kinds of events: notifications to the user, writes to the output channel, and the
  steps that act on the editor (selection, progress, queries for and runs of code actions).\<close>

fun is_notification :: "event \<Rightarrow> bool" where
  "is_notification (ShowErrorMessage _) = True"
| "is_notification (ShowInformationMessage _) = True"
| "is_notification (ShowWarningMessage _) = True"
| "is_notification _ = False"

fun is_output :: "event \<Rightarrow> bool" where
  "is_output OutputShow = True"
| "is_output (Log _) = True"
| "is_output _ = False"

fun is_refactor_step :: "event \<Rightarrow> bool" where
  "is_refactor_step (SetSelection _ _) = True"
| "is_refactor_step (RevealRange _ _) = True"
| "is_refactor_step (WithProgress _) = True"
| "is_refactor_step (ProgressReport _) = True"
| "is_refactor_step (ExecuteCodeActionProvider _ _ _ _) = True"
| "is_refactor_step (ExecuteCodeAction _) = True"
| "is_refactor_step (EditorActionCodeAction _) = True"
| "is_refactor_step (ApplyEdit _) = True"
| "is_refactor_step (ExecuteCommand _) = True"
| "is_refactor_step _ = False"

text \<open>Getting ready for the plan: waking the TypeScript extension, waiting, parsing.\<close>

fun is_preparation :: "event \<Rightarrow> bool" where
  "is_preparation (ActivateExtension _) = True"
| "is_preparation (Sleep _) = True"
| "is_preparation (CreateSourceFile _) = True"
| "is_preparation _ = False"

fun is_parse :: "event \<Rightarrow> bool" where
  "is_parse (CreateSourceFile _) = True"
| "is_parse _ = False"

text \<open>The command got as far as the parser: among what it added to the trace there is a call
  of \<^verbatim>\<open>ts.createSourceFile\<close>.\<close>

definition parse_reached :: "host \<Rightarrow> event list \<Rightarrow> bool" where
  "parse_reached h tr = list_ex is_parse (drop (length tr) (snd (explodeDocument h tr)))"

text \<open>The first query of a round, by which a target is attempted.\<close>

fun is_attempt :: "event \<Rightarrow> bool" where
  "is_attempt (ExecuteCodeActionProvider _ _ _ (Some _)) = True"
| "is_attempt _ = False"

definition attempt_of :: "text_document \<Rightarrow> target \<Rightarrow> event" where
  "attempt_of doc t =
     ExecuteCodeActionProvider (uri_fsPath doc) (positionAt doc (t_start t))
       (positionAt doc (t_end t)) (Some KIND)"

text \<open>A host none of whose commands rejects with \<^verbatim>\<open>null\<close> or \<^verbatim>\<open>undefined\<close>.\<close>

definition nullish :: "js_value + 'a \<Rightarrow> bool" where
  "nullish r = (r = Inl JsNull \<or> r = Inl JsUndefined)"

definition never_nullish :: "host \<Rightarrow> bool" where
  "never_nullish h =
     (\<forall>tr. \<not> nullish (activate h tr) \<and> \<not> nullish (executeCodeActionProvider h tr)
           \<and> \<not> nullish (executeCodeAction h tr) \<and> \<not> nullish (editorActionCodeAction h tr))"

section \<open>The walk of the other \<^verbatim>\<open>explodeDocument\<close>\<close>

text \<open>The repository holds a second \<^verbatim>\<open>explodeDocument\<close>, next to the classifier with the local
  function \<^verbatim>\<open>isTop\<close>. It records \<^verbatim>\<open>vscode.Range\<close> values instead of labelled targets
  (\<^verbatim>\<open>pushNameRange\<close>), starts its walk at the source file itself (\<^verbatim>\<open>visit(sf)\<close>), and goes
  through \<^verbatim>\<open>nameRanges\<close> in the order of the walk: it has no sort.\<close>

definition pushNameRange ::
  "text_document \<Rightarrow> nat \<Rightarrow> nat \<Rightarrow> (position \<times> position) list \<Rightarrow> (position \<times> position) list" where
  "pushNameRange doc start end' nameRanges =
     nameRanges @ [(range_start (positionAt doc start) (positionAt doc end'),
                    range_end (positionAt doc start) (positionAt doc end'))]"

function visit_v1 ::
  "node_flags \<Rightarrow> text_document \<Rightarrow> node \<Rightarrow> node \<Rightarrow> (position \<times> position) list
     \<Rightarrow> (position \<times> position) list" where
  "visit_v1 nf doc sf n nameRanges =
     (let isTop = (\<lambda>n. parent n = Some (nid sf)) in
      if \<not> isTop n then fold (visit_v1 nf doc sf) (children n) nameRanges
      else if \<not> isTopLevelDeclaration_v1 nf n sf then
        fold (visit_v1 nf doc sf) (children n) nameRanges
      else if \<not> isVariableStatement n then
        (case declaration_name (kind n) of
           Some i \<Rightarrow> pushNameRange doc (id_getStart i) (id_getEnd i) nameRanges
         | None \<Rightarrow> pushNameRange doc (getStart n) (getEnd n) nameRanges)
      else
        (case kind n of
           VariableStatement declList \<Rightarrow>
             (let isBlockScoped = ((flags declList AND flag_BlockScoped nf) \<noteq> 0
                                   \<or> (flags declList AND flag_Const nf) \<noteq> 0
                                   \<or> (flags declList AND flag_Let nf) \<noteq> 0)
              in if isBlockScoped \<and> length (declarations declList) > 0 then
                   (case declarations declList of
                      first # _ \<Rightarrow>
                        (case vd_name first of
                           Identifier i \<Rightarrow>
                             pushNameRange doc (id_getStart i) (id_getEnd i) nameRanges
                         | BindingPattern \<Rightarrow>
                             pushNameRange doc (vd_getStart first) (vd_getEnd first) nameRanges)
                    | [] \<Rightarrow> nameRanges)
                 else nameRanges)
         | _ \<Rightarrow> nameRanges))"
  by pat_completeness auto
termination
proof (relation "measure (\<lambda>(nf, doc, sf, n, nameRanges). size n)")
  show "wf (measure (\<lambda>(nf, doc, sf, n, nameRanges). size n))"
    by simp
next
  fix sf n x :: node and rs acc :: "(position \<times> position) list" and nf :: node_flags
    and doc :: text_document
  assume "x \<in> set (children n)"
  then have "size x < size n"
    by (cases n) (auto dest: size_list_estimation' [where f = size and y = "size x"])
  then show "((nf, doc, sf, x, acc), (nf, doc, sf, n, rs))
      \<in> measure (\<lambda>(nf, doc, sf, n, nameRanges). size n)"
    by simp
next
  fix sf n x :: node and rs acc :: "(position \<times> position) list" and nf :: node_flags
    and doc :: text_document
  assume "x \<in> set (children n)"
  then have "size x < size n"
    by (cases n) (auto dest: size_list_estimation' [where f = size and y = "size x"])
  then show "((nf, doc, sf, x, acc), (nf, doc, sf, n, rs))
      \<in> measure (\<lambda>(nf, doc, sf, n, nameRanges). size n)"
    by simp
qed

declare visit_v1.simps [simp del]

definition collect_ranges_v1 ::
  "node_flags \<Rightarrow> text_document \<Rightarrow> node \<Rightarrow> (position \<times> position) list" where
  "collect_ranges_v1 nf doc sf = visit_v1 nf doc sf sf []"

text \<open>The range that the other walk records for a target.\<close>

definition range_of :: "text_document \<Rightarrow> target \<Rightarrow> position \<times> position" where
  "range_of doc t =
     (range_start (positionAt doc (t_start t)) (positionAt doc (t_end t)),
      range_end (positionAt doc (t_start t)) (positionAt doc (t_end t)))"

subsection \<open>The other command\<close>

definition checkDocumentLanguage :: "text_document \<Rightarrow> bool" where
  "checkDocumentLanguage doc =
     (languageId doc = ''typescript'' \<or> languageId doc = ''typescriptreact''
      \<or> languageId doc = ''javascript'' \<or> languageId doc = ''javascriptreact'')"

text \<open>The body of the \<^verbatim>\<open>try\<close> in the loop over the candidates: apply the edit of the action
  if it has one, then run its command if it has one.\<close>

definition apply_candidate ::
  "host \<Rightarrow> code_action \<Rightarrow> event list \<Rightarrow> (js_value + unit) \<times> event list" where
  "apply_candidate h action tr =
     (case (case action_edit action of
              None \<Rightarrow> (Inr (), tr)
            | Some edit \<Rightarrow>
                (let tr1 = tr @ [ApplyEdit edit]
                 in case applyEdit h tr1 of
                      Inl err \<Rightarrow> (Inl err, tr1)
                    | Inr _ \<Rightarrow> (Inr (), tr1)))
      of
        (Inl err, tr1) \<Rightarrow> (Inl err, tr1)
      | (Inr _, tr1) \<Rightarrow>
          (case action_command action of
             None \<Rightarrow> (Inr (), tr1)
           | Some command \<Rightarrow>
               (let tr2 = tr1 @ [ExecuteCommand command]
                in case executeCommand h tr2 of
                     Inl err \<Rightarrow> (Inl err, tr2)
                   | Inr _ \<Rightarrow> (Inr (), tr2))))"

text \<open>The \<^verbatim>\<open>try\<close> with its handler, which shows a warning with
  \<^verbatim>\<open>err instanceof Error ? err.message : String(err)\<close>.\<close>

definition try_candidate :: "host \<Rightarrow> code_action \<Rightarrow> event list \<Rightarrow> event list" where
  "try_candidate h action tr =
     (case apply_candidate h action tr of
        (Inr _, tr1) \<Rightarrow> tr1
      | (Inl err, tr1) \<Rightarrow>
          tr1 @ [ShowWarningMessage (''Explode Document: one declaration failed: ''
                                     @ error_text err)])"

text \<open>The body of \<^verbatim>\<open>for (const range of nameRanges)\<close>. The query for the code actions is
  awaited outside the \<^verbatim>\<open>try\<close>: when it rejects, the round is left by what it rejected with.\<close>

definition process_range ::
  "host \<Rightarrow> text_document \<Rightarrow> string \<Rightarrow> nat \<Rightarrow> nat \<Rightarrow> position \<times> position \<Rightarrow> event list
     \<Rightarrow> (js_value + unit) \<times> event list" where
  "process_range h doc MOVE_NEWFILE_KIND len idx rng tr =
     (let tr1 = tr @ [ProgressReport (''Processing '' @ show_nat idx @ ''/'' @ show_nat len),
                      ExecuteCodeActionProvider (uri_fsPath doc) (fst rng) (snd rng)
                        (Some MOVE_NEWFILE_KIND)]
      in case executeCodeActionProvider h tr1 of
           Inl err \<Rightarrow> (Inl err, tr1)
         | Inr r \<Rightarrow>
             (let actions = (case r of None \<Rightarrow> [] | Some a \<Rightarrow> a);
                  candidates = filter (kind_is_newFile h) actions
              in (Inr (), fold (try_candidate h) candidates tr1)))"

fun process_ranges ::
  "host \<Rightarrow> text_document \<Rightarrow> string \<Rightarrow> nat \<Rightarrow> nat \<Rightarrow> (position \<times> position) list \<Rightarrow> event list
     \<Rightarrow> (js_value + unit) \<times> event list" where
  "process_ranges h doc k len dn [] tr = (Inr (), tr)"
| "process_ranges h doc k len dn (rng # ranges) tr =
     (case process_range h doc k len (dn + 1) rng tr of
        (Inl thrown, tr1) \<Rightarrow> (Inl thrown, tr1)
      | (Inr _, tr1) \<Rightarrow> process_ranges h doc k len (dn + 1) ranges tr1)"

text \<open>The other \<^verbatim>\<open>explodeDocument\<close>. It goes through \<^verbatim>\<open>nameRanges\<close> as the walk left them.\<close>

definition explodeDocument_v1 :: "host \<Rightarrow> event list \<Rightarrow> (js_value + unit) \<times> event list" where
  "explodeDocument_v1 h tr0 =
     (case activeTextEditor h of
        None \<Rightarrow> (Inr (), tr0 @ [ShowErrorMessage ''Explode Document: No active editor.''])
      | Some editor \<Rightarrow>
          (let doc = document editor;
               ok = checkDocumentLanguage doc
           in if \<not> ok then
                (Inr (), tr0 @ [ShowErrorMessage ''Explode Document: TS/JS files only.''])
              else
                (let sf = createSourceFile h (fileName doc) (getText doc);
                     tr1 = tr0 @ [CreateSourceFile (fileName doc)];
                     nameRanges = collect_ranges_v1 (NodeFlags h) doc sf
                 in if length nameRanges = 0 then
                      (Inr (), tr1 @ [ShowInformationMessage
                                        ''Explode Document: No top-level declarations found.''])
                    else
                      (let MOVE_NEWFILE_KIND = newFile_value h;
                           tr2 = tr1 @ [WithProgress
                                          ''Explode Document: Move each decl to a new file'']
                       in case process_ranges h doc MOVE_NEWFILE_KIND (length nameRanges) 0
                                 nameRanges tr2 of
                            (Inl thrown, tr3) \<Rightarrow> (Inl thrown, tr3)
                          | (Inr _, tr3) \<Rightarrow>
                              (Inr (),
                               tr3 @ [ShowInformationMessage
                                        ''Explode Document: Done. Sanity-check the results before committing.''])))))"

section \<open>Example files\<close>

text \<open>Values of \<^verbatim>\<open>ts.NodeFlags\<close> in TypeScript releases that know \<^verbatim>\<open>using\<close> declarations
  (\<^verbatim>\<open>BlockScoped = Let | Const | Using\<close>).\<close>

definition NodeFlags_ts :: node_flags where
  "NodeFlags_ts = \<lparr>flag_Let = 1, flag_Const = 2, flag_BlockScoped = 7\<rparr>"


definition simple_ident :: "string \<Rightarrow> nat \<Rightarrow> nat \<Rightarrow> ident" where
  "simple_ident s lo hi = \<lparr>id_getStart = lo, id_getEnd = hi, id_getText = s, id_text = s\<rparr>"

text \<open>The file of the end-to-end test:
  \<^verbatim>\<open>export class Foo { n = 1 }\<close>, \<^verbatim>\<open>export interface Baz { x: number }\<close>,
  \<^verbatim>\<open>export enum K { A = 1, B = 2 }\<close>, \<^verbatim>\<open>export function bar() { return 42 }\<close>,
  \<^verbatim>\<open>export const Qux = 7\<close>, each on a line of its own, indented by four blanks,
  after an empty first line.\<close>

definition index_ts :: node where
  "index_ts = Node 0 None (OtherKind ''SourceFile'') 5 173
     [Node 1 (Some 0) (ClassDeclaration (Some (simple_ident ''Foo'' 18 21))) 5 31
        [Node 2 (Some 1) (OtherKind ''ExportKeyword'') 5 11 [],
         Node 3 (Some 1) (OtherKind ''Identifier'') 18 21 [],
         Node 4 (Some 1) (OtherKind ''PropertyDeclaration'') 24 29 []],
      Node 5 (Some 0) (InterfaceDeclaration (Some (simple_ident ''Baz'' 53 56))) 36 70
        [Node 6 (Some 5) (OtherKind ''PropertySignature'') 59 68 []],
      Node 7 (Some 0) (EnumDeclaration (Some (simple_ident ''K'' 87 88))) 75 105
        [Node 8 (Some 7) (OtherKind ''EnumMember'') 91 96 [],
         Node 9 (Some 7) (OtherKind ''EnumMember'') 98 103 []],
      Node 10 (Some 0) (FunctionDeclaration (Some (simple_ident ''bar'' 126 129))) 110 145
        [Node 11 (Some 10) (OtherKind ''Block'') 132 145
           [Node 12 (Some 11) (OtherKind ''ReturnStatement'') 134 143 []]],
      Node 13 (Some 0)
        (VariableStatement \<lparr>flags = 2, declarations =
           [\<lparr>vd_name = Identifier (simple_ident ''Qux'' 163 166),
             vd_getStart = 163, vd_getEnd = 170\<rparr>]\<rparr>) 150 170
        [Node 14 (Some 13) (OtherKind ''VariableDeclarationList'') 157 170 []],
      Node 15 (Some 0) (OtherKind ''EndOfFileToken'') 173 173 []]"

text \<open>The file of the unit test on nesting:
  \<^verbatim>\<open>function outer() { class Inner {} const X = 1; }\<close> and
  \<^verbatim>\<open>class C { method() { const Y = 2 } }\<close>.\<close>

definition inner_class :: node where
  "inner_class = Node 3 (Some 2) (ClassDeclaration (Some (simple_ident ''Inner'' 40 45))) 34 48 []"

definition outer_function :: node where
  "outer_function =
     Node 1 (Some 0) (FunctionDeclaration (Some (simple_ident ''outer'' 16 21))) 7 77
       [Node 2 (Some 1) (OtherKind ''Block'') 24 77
          [inner_class,
           Node 4 (Some 2)
             (VariableStatement \<lparr>flags = 2, declarations =
                [\<lparr>vd_name = Identifier (simple_ident ''X'' 63 64),
                  vd_getStart = 63, vd_getEnd = 68\<rparr>]\<rparr>) 57 69 []]]"

definition nested_ts :: node where
  "nested_ts = Node 0 None (OtherKind ''SourceFile'') 7 139
     [outer_function,
      Node 5 (Some 0) (ClassDeclaration (Some (simple_ident ''C'' 90 91))) 84 134
        [Node 6 (Some 5) (OtherKind ''MethodDeclaration'') 102 126
           [Node 7 (Some 6) (OtherKind ''Block'') 111 126
              [Node 8 (Some 7)
                 (VariableStatement \<lparr>flags = 2, declarations =
                    [\<lparr>vd_name = Identifier (simple_ident ''Y'' 119 120),
                      vd_getStart = 119, vd_getEnd = 124\<rparr>]\<rparr>) 113 124 []]]],
      Node 9 (Some 0) (OtherKind ''EndOfFileToken'') 139 139 []]"

text \<open>Statements of a file \<^verbatim>\<open>const A = 1; let B = 2; var C = 3;\<close> and of a file
  \<^verbatim>\<open>const a = 1, b = 2; const {x, y} = o; export default class {}\<close>; the root is only
  needed for its identity.\<close>

definition root0 :: node where
  "root0 = Node 0 None (OtherKind ''SourceFile'') 0 0 []"











definition anonymous_class :: node where
  "anonymous_class = Node 3 (Some 0) (ClassDeclaration None) 38 61 []"

text \<open>Documents and hosts. \<open>offset_position\<close> counts lines and columns in a text.\<close>

definition offset_position :: "string \<Rightarrow> nat \<Rightarrow> position" where
  "offset_position text n =
     (length (filter (\<lambda>c. c = CHR 0x0A) (take n text)),
      length (takeWhile (\<lambda>c. c \<noteq> CHR 0x0A) (rev (take n text))))"

definition index_text :: string where
  "index_text = concat
     [[CHR 0x0A], ''    export class Foo { n = 1 }'',
      [CHR 0x0A], ''    export interface Baz { x: number }'',
      [CHR 0x0A], ''    export enum K { A = 1, B = 2 }'',
      [CHR 0x0A], ''    export function bar() { return 42 }'',
      [CHR 0x0A], ''    export const Qux = 7'',
      [CHR 0x0A], ''  '']"

definition index_doc :: text_document where
  "index_doc = \<lparr>uri_fsPath = ''/ws/index.ts'', fileName = ''/ws/index.ts'',
     languageId = ''typescript'', getText = index_text,
     positionAt = offset_position index_text\<rparr>"

definition notes_doc :: text_document where
  "notes_doc = \<lparr>uri_fsPath = ''/ws/notes.md'', fileName = ''/ws/notes.md'',
     languageId = ''markdown'', getText = ''# notes'',
     positionAt = offset_position ''# notes''\<rparr>"

text \<open>A script with one expression statement, \<^verbatim>\<open>console.log(1)\<close>, and nothing to move.\<close>

definition script_doc :: text_document where
  "script_doc = \<lparr>uri_fsPath = ''/ws/script.js'', fileName = ''/ws/script.js'',
     languageId = ''javascript'', getText = ''console.log(1)'',
     positionAt = offset_position ''console.log(1)''\<rparr>"

definition script_js :: node where
  "script_js = Node 0 None (OtherKind ''SourceFile'') 0 14
     [Node 1 (Some 0) (OtherKind ''ExpressionStatement'') 0 14
        [Node 2 (Some 1) (OtherKind ''CallExpression'') 0 14 []],
      Node 3 (Some 0) (OtherKind ''EndOfFileToken'') 14 14 []]"

definition move_action :: code_action where
  "move_action = \<lparr>title = ''Move to a new file'', action_kind = Some ''refactor.move.newFile'',
     action_edit = None, action_command = Some ''_typescript.applyRefactoring''\<rparr>"

text \<open>A host in which every command works.\<close>

definition working_host :: "text_editor option \<Rightarrow> node \<Rightarrow> host" where
  "working_host ed sf =
     \<lparr>NodeFlags = NodeFlags_ts, activeTextEditor = ed,
      getExtension = (\<lambda>i. Some i), activate = (\<lambda>tr. Inr ()),
      getDiagnostics = (\<lambda>tr. True), createSourceFile = (\<lambda>name text. sf),
      newFile_value = KIND,
      contains_newFile = (\<lambda>k. k = KIND \<or> take (length KIND + 1) k = KIND @ ''.''),
      executeCodeActionProvider = (\<lambda>tr. Inr (Some [move_action])),
      executeCodeAction = (\<lambda>tr. Inr ()),
      editorActionCodeAction = (\<lambda>tr. Inr ()),
      applyEdit = (\<lambda>tr. Inr ()),
      executeCommand = (\<lambda>tr. Inr ())\<rparr>"

definition index_host :: host where
  "index_host = working_host (Some \<lparr>document = index_doc\<rparr>) index_ts"

text \<open>Hosts for the end-to-end file in which something rejects: the provider offers the move
  but both ways of running it reject with an \<^verbatim>\<open>Error\<close>; running the action found rejects with
  a given value; the query for code actions rejects with a given value; waking the TypeScript
  extension rejects with a given value.\<close>

definition failing_host :: host where
  "failing_host =
     index_host
       \<lparr>executeCodeAction := (\<lambda>tr. Inl (ErrorObject ''boom'')),
        editorActionCodeAction := (\<lambda>tr. Inl (ErrorObject ''no code action''))\<rparr>"

definition action_rejecting_host :: "js_value \<Rightarrow> host" where
  "action_rejecting_host v = index_host \<lparr>executeCodeAction := (\<lambda>tr. Inl v)\<rparr>"

definition query_rejecting_host :: "js_value \<Rightarrow> host" where
  "query_rejecting_host v = index_host \<lparr>executeCodeActionProvider := (\<lambda>tr. Inl v)\<rparr>"

text \<open>Only the query with a kind rejects; the query without one finds the move.\<close>

definition kind_query_rejecting_host :: "js_value \<Rightarrow> host" where
  "kind_query_rejecting_host v =
     index_host
       \<lparr>executeCodeActionProvider :=
          (\<lambda>tr. case last tr of
                  ExecuteCodeActionProvider u a b (Some k) \<Rightarrow> Inl v
                | _ \<Rightarrow> Inr (Some [move_action]))\<rparr>"

definition command_rejecting_host :: "js_value \<Rightarrow> host" where
  "command_rejecting_host v = index_host \<lparr>executeCommand := (\<lambda>tr. Inl v)\<rparr>"

definition activation_rejecting_host :: "js_value \<Rightarrow> host" where
  "activation_rejecting_host v =
     (working_host (Some \<lparr>document = script_doc\<rparr>) script_js) \<lparr>activate := (\<lambda>tr. Inl v)\<rparr>"

text \<open>The first target of the plan for the end-to-end file.\<close>

definition qux_target :: target where
  "qux_target = \<lparr>t_start = 163, t_end = 166, t_label = ''Qux'', t_kind = ''Variable''\<rparr>"

section \<open>Facts about the classifier and the walk\<close>

lemma classifiers_agree: "isTopLevelDeclaration_v1 nf n sf = isTopLevelDeclaration nf n sf"
  by (auto simp: isTopLevelDeclaration_v1_def isTopLevelDeclaration_def Let_def
      split: node_kind.splits)

lemma classified_parent: "isTopLevelDeclaration nf n sf \<Longrightarrow> parent n = Some (nid sf)"
  by (auto simp: isTopLevelDeclaration_def split: if_splits)

lemma descendants_children: "set (children n) \<subseteq> set (descendants n)"
  by (cases n) auto

lemma descendants_trans:
  "c \<in> set (descendants n) \<Longrightarrow> d \<in> set (descendants c) \<Longrightarrow> d \<in> set (descendants n)"
proof (induction n rule: descendants.induct)
  case (1 i p k s e cs)
  then show ?case by fastforce
qed

lemma descendant_has_parent_node:
  "d \<in> set (descendants n) \<Longrightarrow> \<exists>p \<in> set (nodes_of n). d \<in> set (children p)"
proof (induction n rule: descendants.induct)
  case (1 i p k s e cs)
  then show ?case by (fastforce simp: nodes_of_def)
qed

lemma parent_links_descendant:
  "parent_links n \<Longrightarrow> p \<in> set (descendants n) \<Longrightarrow> parent_links p"
proof (induction n rule: descendants.induct)
  case (1 i p' k s e cs)
  then show ?case by (fastforce simp: list_all_iff)
qed

lemma parent_links_child: "parent_links p \<Longrightarrow> d \<in> set (children p) \<Longrightarrow> parent d = Some (nid p)"
  by (cases p) (auto simp: list_all_iff)

lemma nested_parent:
  assumes "parsed_tree sf" "c \<in> set (children sf)" "d \<in> set (descendants c)"
  shows "parent d \<noteq> Some (nid sf)"
proof -
  from assms(3) obtain p where p: "p \<in> set (nodes_of c)" "d \<in> set (children p)"
    using descendant_has_parent_node by blast
  have c_desc: "c \<in> set (descendants sf)" using assms(2) descendants_children by blast
  have p_desc: "p \<in> set (descendants sf)"
    using p(1) c_desc descendants_trans by (auto simp: nodes_of_def)
  have "parent_links p"
    using assms(1) p_desc parent_links_descendant by (auto simp: parsed_tree_def)
  then have "parent d = Some (nid p)" using p(2) parent_links_child by blast
  moreover have "nid sf \<notin> nid ` set (descendants sf)"
    using assms(1) by (simp add: parsed_tree_def nodes_of_def)
  then have "nid p \<noteq> nid sf"
    using p_desc by (metis imageI)
  ultimately show ?thesis by simp
qed

lemma nested_not_classified:
  assumes "parsed_tree sf" "c \<in> set (children sf)" "d \<in> set (descendants c)"
  shows "\<not> isTopLevelDeclaration nf d sf"
  using nested_parent [OF assms] classified_parent by blast

lemma fold_visit_idle:
  "(\<And>d. d \<in> set (descendants n) \<Longrightarrow> \<not> isTopLevelDeclaration nf d sf)
   \<Longrightarrow> fold (visit nf sf) (children n) acc = acc"
proof (induction n arbitrary: acc)
  case (Node i p k s e cs)
  have "fold (visit nf sf) xs acc = acc" if "set xs \<subseteq> set cs" for xs acc
    using that
  proof (induction xs arbitrary: acc)
    case Nil
    then show ?case by simp
  next
    case (Cons x xs)
    have x: "x \<in> set cs" using Cons.prems by simp
    have nx: "\<not> isTopLevelDeclaration nf x sf" using Node.prems x by auto
    have "\<And>d. d \<in> set (descendants x) \<Longrightarrow> \<not> isTopLevelDeclaration nf d sf"
      using Node.prems x by auto
    then have "fold (visit nf sf) (children x) acc = acc" using Node.IH x by blast
    then have "visit nf sf x acc = acc" using nx by (simp add: visit.simps)
    then show ?case using Cons by simp
  qed
  then show ?case by simp
qed

lemma visit_unclassified_child:
  assumes "parsed_tree sf" "c \<in> set (children sf)" "\<not> isTopLevelDeclaration nf c sf"
  shows "visit nf sf c acc = acc"
proof -
  have "fold (visit nf sf) (children c) acc = acc"
    using nested_not_classified [OF assms(1,2)] by (rule fold_visit_idle)
  then show ?thesis using assms(3) by (simp add: visit.simps)
qed

lemma visit_classified_span:
  assumes "isTopLevelDeclaration nf n sf" "span_inside n"
  shows "\<exists>t. visit nf sf n acc = acc @ [t] \<and> getStart n \<le> t_start t
            \<and> t_start t \<le> t_end t \<and> t_end t \<le> getEnd n"
  using assms
  by (auto simp: visit.simps push_def isTopLevelDeclaration_def span_inside_def ident_inside_def
      Let_def split: if_splits node_kind.splits list.splits binding_name.splits option.splits)

lemma fold_visit_statements:
  assumes tree: "parsed_tree sf"
  shows "set cs \<subseteq> set (children sf) \<Longrightarrow> list_all span_inside cs
     \<Longrightarrow> sorted_wrt (\<lambda>a b. getEnd a \<le> getStart b) cs
     \<Longrightarrow> \<exists>ts. fold (visit nf sf) cs acc = acc @ ts
            \<and> length ts = length (filter (\<lambda>n. isTopLevelDeclaration nf n sf) cs)
            \<and> sorted_wrt (\<lambda>a b. t_end a \<le> t_start b) ts
            \<and> (\<forall>t \<in> set ts. \<exists>c \<in> set cs. within t c)"
proof (induction cs arbitrary: acc)
  case Nil
  then show ?case by simp
next
  case (Cons x xs)
  have x: "x \<in> set (children sf)" using Cons.prems(1) by simp
  have later: "\<forall>c \<in> set xs. getEnd x \<le> getStart c" using Cons.prems(3) by simp
  show ?case
  proof (cases "isTopLevelDeclaration nf x sf")
    case False
    then have vx: "visit nf sf x acc = acc"
      using visit_unclassified_child [OF tree x] by simp
    from Cons.IH [of acc] Cons.prems obtain ts where ts:
      "fold (visit nf sf) xs acc = acc @ ts"
      "length ts = length (filter (\<lambda>n. isTopLevelDeclaration nf n sf) xs)"
      "sorted_wrt (\<lambda>a b. t_end a \<le> t_start b) ts"
      "\<forall>t \<in> set ts. \<exists>c \<in> set xs. within t c"
      by auto
    show ?thesis
      using ts vx False by (intro exI [of _ ts]) auto
  next
    case True
    have "span_inside x" using Cons.prems(2) by simp
    from visit_classified_span [OF True this, of acc] obtain t where t:
      "visit nf sf x acc = acc @ [t]" "within t x"
      by (auto simp: within_def)
    from Cons.IH [of "acc @ [t]"] Cons.prems obtain ts where ts:
      "fold (visit nf sf) xs (acc @ [t]) = (acc @ [t]) @ ts"
      "length ts = length (filter (\<lambda>n. isTopLevelDeclaration nf n sf) xs)"
      "sorted_wrt (\<lambda>a b. t_end a \<le> t_start b) ts"
      "\<forall>t \<in> set ts. \<exists>c \<in> set xs. within t c"
      by auto
    have "\<forall>u \<in> set ts. t_end t \<le> t_start u"
    proof
      fix u assume "u \<in> set ts"
      then obtain c where c: "c \<in> set xs" "within u c" using ts(4) by blast
      have "t_end t \<le> getEnd x" using t(2) by (simp add: within_def)
      also have "\<dots> \<le> getStart c" using later c(1) by blast
      also have "\<dots> \<le> t_start u" using c(2) by (simp add: within_def)
      finally show "t_end t \<le> t_start u" .
    qed
    then show ?thesis
      using ts t True by (intro exI [of _ "t # ts"]) auto
  qed
qed

lemma collect_targets_shape:
  assumes "parsed_tree sf" "parsed_ranges sf"
  shows "length (collect_targets nf sf) = length (qualifying nf sf)
         \<and> sorted_wrt (\<lambda>a b. t_end a \<le> t_start b) (collect_targets nf sf)"
  using fold_visit_statements [OF assms(1), of "children sf" nf "[]"] assms(2)
  by (auto simp: collect_targets_def qualifying_def parsed_ranges_def)

subsection \<open>The sort\<close>

lemma set_insert_by: "set (insert_by cmp x ys) = insert x (set ys)"
  by (induction ys) auto

lemma length_insert_by: "length (insert_by cmp x ys) = Suc (length ys)"
  by (induction ys) auto

lemma set_array_sort: "set (array_sort cmp xs) = set xs"
  by (induction xs) (auto simp: array_sort_def set_insert_by)

lemma length_array_sort: "length (array_sort cmp xs) = length xs"
  by (induction xs) (auto simp: array_sort_def length_insert_by)

lemma insert_by_symmetric:
  "symp R \<Longrightarrow> sorted_wrt R (x # ys) \<Longrightarrow> sorted_wrt R (insert_by cmp x ys)"
  by (induction ys) (auto simp: set_insert_by dest: sympD)

lemma array_sort_symmetric:
  "symp R \<Longrightarrow> sorted_wrt R xs \<Longrightarrow> sorted_wrt R (array_sort cmp xs)"
proof (induction xs)
  case Nil
  then show ?case by (simp add: array_sort_def)
next
  case (Cons x xs)
  then have "sorted_wrt R (x # array_sort cmp xs)"
    by (simp add: set_array_sort)
  with Cons.prems(1) have "sorted_wrt R (insert_by cmp x (array_sort cmp xs))"
    by (rule insert_by_symmetric)
  then show ?case by (simp add: array_sort_def)
qed

lemma insert_by_descending:
  "sorted_wrt (\<lambda>a b. t_start b \<le> t_start a) ys
   \<Longrightarrow> sorted_wrt (\<lambda>a b. t_start b \<le> t_start a)
         (insert_by (\<lambda>a b. int (t_start b) - int (t_start a)) x ys)"
  by (induction ys) (auto simp: set_insert_by)

lemma sort_targets_descending:
  "sorted_wrt (\<lambda>a b. t_start b \<le> t_start a) (sort_targets ts)"
  by (induction ts) (auto simp: sort_targets_def array_sort_def insert_by_descending)

lemma apart_no_overlap: "t_end a \<le> t_start b \<Longrightarrow> \<not> overlap a b"
  by (auto simp: overlap_def)

lemma symp_no_overlap: "symp (\<lambda>a b. \<not> overlap a b)"
  by (auto simp: symp_def overlap_def max.commute min.commute)

subsection \<open>Targets of the statements of a file\<close>

lemma visit_classified_append:
  "isTopLevelDeclaration nf n sf \<Longrightarrow> visit nf sf n acc = acc @ visit nf sf n []"
  by (auto simp: visit.simps push_def isTopLevelDeclaration_def Let_def
      split: if_splits node_kind.splits list.splits binding_name.splits)

lemma fold_visit_concat:
  assumes "parsed_tree sf"
  shows "set cs \<subseteq> set (children sf)
    \<Longrightarrow> fold (visit nf sf) cs acc = acc @ concat (map (\<lambda>c. visit nf sf c []) cs)"
proof (induction cs arbitrary: acc)
  case Nil
  then show ?case by simp
next
  case (Cons x xs)
  have x: "x \<in> set (children sf)" using Cons.prems by simp
  have "visit nf sf x acc = acc @ visit nf sf x []"
    using visit_classified_append [of nf x sf acc]
      visit_unclassified_child [OF assms x, of nf] by (cases "isTopLevelDeclaration nf x sf") auto
  then show ?case using Cons by simp
qed

lemma collect_targets_concat:
  "parsed_tree sf
   \<Longrightarrow> collect_targets nf sf = concat (map (\<lambda>c. visit nf sf c []) (children sf))"
  using fold_visit_concat [of sf "children sf" nf "[]"] by (simp add: collect_targets_def)

lemma visit_in_plan:
  assumes "parsed_tree sf" "n \<in> set (children sf)"
  shows "set (visit nf sf n []) \<subseteq> set (extraction_plan nf sf)"
  using assms
  by (auto simp: extraction_plan_def sort_targets_def set_array_sort collect_targets_concat)

section \<open>The classifier\<close>

text \<open>
  \<^bold>\<open>C10.\<close> The two implementations of \<^verbatim>\<open>isTopLevelDeclaration\<close> (the one that tests the
  parent through a local function ignoring its argument, and the one that tests it directly,
  with the flag tests in another order) are the same function: on every node and every
  source file they return the same boolean, whatever the values of the flag enum.
\<close>

theorem classifiers_extensionally_equal:
  "isTopLevelDeclaration_v1 = isTopLevelDeclaration"
  by (intro ext) (rule classifiers_agree)

text \<open>
  \<^bold>\<open>C2.\<close> Direct-child rule. Either classifier answers true only for a node whose parent is
  the source file itself. In a parsed file, a node nested anywhere below a top-level node
  (in a function body, a class body, a block) is rejected by both, whatever its kind.
\<close>

theorem direct_child_rule:
  "(isTopLevelDeclaration nf n sf \<longrightarrow> parent n = Some (nid sf))
   \<and> (isTopLevelDeclaration_v1 nf n sf \<longrightarrow> parent n = Some (nid sf))
   \<and> (parsed_tree sf \<and> c \<in> set (children sf) \<and> d \<in> set (descendants c)
        \<longrightarrow> \<not> isTopLevelDeclaration nf d sf \<and> \<not> isTopLevelDeclaration_v1 nf d sf)"
  using classified_parent [of nf n sf] nested_not_classified [of sf c d nf]
  by (simp add: classifiers_agree)

theorem direct_child_rule_witness:
  "isTopLevelDeclaration NodeFlags_ts outer_function nested_ts
   \<and> isTopLevelDeclaration_v1 NodeFlags_ts outer_function nested_ts
   \<and> parent outer_function = Some (nid nested_ts)
   \<and> parsed_tree nested_ts \<and> outer_function \<in> set (children nested_ts)
   \<and> inner_class \<in> set (descendants outer_function)
   \<and> isClassDeclaration inner_class
   \<and> \<not> isTopLevelDeclaration NodeFlags_ts inner_class nested_ts
   \<and> \<not> isTopLevelDeclaration_v1 NodeFlags_ts inner_class nested_ts"
proof -
  have a: "isTopLevelDeclaration NodeFlags_ts outer_function nested_ts" by code_simp
  have b: "isTopLevelDeclaration_v1 NodeFlags_ts outer_function nested_ts" by code_simp
  have c: "parsed_tree nested_ts" by code_simp
  have d: "outer_function \<in> set (children nested_ts)" by code_simp
  have e: "inner_class \<in> set (descendants outer_function)" by code_simp
  have f: "isClassDeclaration inner_class" by code_simp
  show ?thesis
    using direct_child_rule [of NodeFlags_ts outer_function nested_ts outer_function inner_class]
      a b c d e f by simp
qed

text \<open>
  \<^bold>\<open>C3.\<close> A direct child of the source file that is a class, interface, enum, function or
  type-alias declaration is accepted by both classifiers, with or without a name (\<open>i\<close> is
  any optional identifier), whatever its children, offsets and flags. Modifiers and bodies
  are never read by the code.
\<close>

theorem declaration_kinds_always_eligible:
  assumes "parent n = Some (nid sf)"
    and "kind n = ClassDeclaration i \<or> kind n = InterfaceDeclaration i
         \<or> kind n = EnumDeclaration i \<or> kind n = FunctionDeclaration i
         \<or> kind n = TypeAliasDeclaration i"
  shows "isTopLevelDeclaration nf n sf \<and> isTopLevelDeclaration_v1 nf n sf"
  using assms by (auto simp: isTopLevelDeclaration_def classifiers_agree)

theorem declaration_kinds_always_eligible_witness:
  "parent anonymous_class = Some (nid root0) \<and> kind anonymous_class = ClassDeclaration None
   \<and> children anonymous_class = []
   \<and> isTopLevelDeclaration NodeFlags_ts anonymous_class root0
   \<and> isTopLevelDeclaration_v1 NodeFlags_ts anonymous_class root0"
proof -
  have a: "parent anonymous_class = Some (nid root0)" by code_simp
  have b: "kind anonymous_class = ClassDeclaration None" by code_simp
  have c: "children anonymous_class = []" by code_simp
  show ?thesis
    using declaration_kinds_always_eligible [of anonymous_class root0 None NodeFlags_ts] a b c
    by simp
qed




section \<open>The planner\<close>

text \<open>
  \<^bold>\<open>C5.\<close> For a classified node that is not a variable statement, the walk appends exactly one
  target: with a name, its range is the range of the name identifier and its label the text
  of the identifier in the source; without a name, its range is the range of the whole node
  and its label is \<^verbatim>\<open><anonymous>\<close>. In a parsed file that target is part of the sorted plan.
\<close>

theorem name_span_of_declaration:
  assumes "isTopLevelDeclaration nf n sf" and "\<not> isVariableStatement n"
  shows "(declaration_name (kind n) = Some i \<longrightarrow>
            visit nf sf n targets = targets @
              [\<lparr>t_start = id_getStart i, t_end = id_getEnd i, t_label = id_getText i,
                t_kind = SyntaxKind_name (kind n)\<rparr>])
       \<and> (declaration_name (kind n) = None \<longrightarrow>
            visit nf sf n targets = targets @
              [\<lparr>t_start = getStart n, t_end = getEnd n, t_label = ''<anonymous>'',
                t_kind = SyntaxKind_name (kind n)\<rparr>])
       \<and> (parsed_tree sf \<and> n \<in> set (children sf) \<longrightarrow>
            set (visit nf sf n []) \<subseteq> set (extraction_plan nf sf))"
  using assms visit_in_plan [of sf n nf]
  by (auto simp: visit.simps [of nf sf n] push_def Let_def)

theorem name_span_of_declaration_witness:
  "isTopLevelDeclaration NodeFlags_ts outer_function nested_ts
   \<and> \<not> isVariableStatement outer_function
   \<and> declaration_name (kind outer_function) = Some (simple_ident ''outer'' 16 21)
   \<and> parsed_tree nested_ts \<and> outer_function \<in> set (children nested_ts)
   \<and> visit NodeFlags_ts nested_ts outer_function [] =
       [\<lparr>t_start = 16, t_end = 21, t_label = ''outer'', t_kind = ''FunctionDeclaration''\<rparr>]
   \<and> \<lparr>t_start = 16, t_end = 21, t_label = ''outer'', t_kind = ''FunctionDeclaration''\<rparr>
       \<in> set (extraction_plan NodeFlags_ts nested_ts)
   \<and> isTopLevelDeclaration NodeFlags_ts anonymous_class root0
   \<and> \<not> isVariableStatement anonymous_class
   \<and> declaration_name (kind anonymous_class) = None
   \<and> visit NodeFlags_ts root0 anonymous_class [] =
       [\<lparr>t_start = 38, t_end = 61, t_label = ''<anonymous>'', t_kind = ''ClassDeclaration''\<rparr>]"
proof -
  have a: "isTopLevelDeclaration NodeFlags_ts outer_function nested_ts" by code_simp
  have b: "\<not> isVariableStatement outer_function" by code_simp
  have c: "declaration_name (kind outer_function) = Some (simple_ident ''outer'' 16 21)"
    by code_simp
  have d: "parsed_tree nested_ts \<and> outer_function \<in> set (children nested_ts)" by code_simp
  have e: "isTopLevelDeclaration NodeFlags_ts anonymous_class root0" by code_simp
  have f: "\<not> isVariableStatement anonymous_class" by code_simp
  have g: "declaration_name (kind anonymous_class) = None" by code_simp
  have k: "SyntaxKind_name (kind outer_function) = ''FunctionDeclaration''"
    "SyntaxKind_name (kind anonymous_class) = ''ClassDeclaration''"
    "getStart anonymous_class = 38" "getEnd anonymous_class = 61"
    by (simp_all add: outer_function_def anonymous_class_def)
  show ?thesis
    using name_span_of_declaration [OF a b, of "simple_ident ''outer'' 16 21" "[]"]
      name_span_of_declaration [OF e f, of "simple_ident [] 0 0" "[]"] a b c d e f g k
    by (auto simp: simple_ident_def)
qed



lemma strictly_descending:
  assumes "\<forall>i j. i < j \<and> j < length p \<longrightarrow> t_start (p ! j) \<le> t_start (p ! i)"
    and "\<forall>i j. i < j \<and> j < length p \<longrightarrow> \<not> overlap (p ! i) (p ! j)"
    and "\<forall>t \<in> set p. t_start t < t_end t"
  shows "\<forall>i j. i < j \<and> j < length p \<longrightarrow> t_start (p ! j) < t_start (p ! i)"
proof (intro allI impI)
  fix i j assume ij: "i < j \<and> j < length p"
  then have "t_start (p ! i) < t_end (p ! i)" "t_start (p ! j) < t_end (p ! j)"
    using assms(3) by auto
  moreover have "\<not> overlap (p ! i) (p ! j)" "t_start (p ! j) \<le> t_start (p ! i)"
    using assms(1,2) ij by blast+
  ultimately show "t_start (p ! j) < t_start (p ! i)"
    by (auto simp: overlap_def)
qed

text \<open>The ordering invariant holds of the planner that sorts. For a parsed file with \<open>N\<close>
  qualifying top-level declarations its plan has \<open>N\<close> elements, the start offsets never
  increase along the plan, and no two elements of the plan overlap. When no target is empty
  the start offsets decrease strictly.\<close>

lemma planner_ordering_invariant:
  assumes "parsed_tree sf" "parsed_ranges sf"
  shows "length (extraction_plan nf sf) = length (qualifying nf sf)
     \<and> (\<forall>i j. i < j \<and> j < length (extraction_plan nf sf) \<longrightarrow>
            t_start (extraction_plan nf sf ! j) \<le> t_start (extraction_plan nf sf ! i))
     \<and> (\<forall>i j. i < j \<and> j < length (extraction_plan nf sf) \<longrightarrow>
            \<not> overlap (extraction_plan nf sf ! i) (extraction_plan nf sf ! j))
     \<and> ((\<forall>t \<in> set (extraction_plan nf sf). t_start t < t_end t) \<longrightarrow>
          (\<forall>i j. i < j \<and> j < length (extraction_plan nf sf) \<longrightarrow>
             t_start (extraction_plan nf sf ! j) < t_start (extraction_plan nf sf ! i)))"
proof -
  let ?ts = "collect_targets nf sf"
  have shape: "length ?ts = length (qualifying nf sf)"
    "sorted_wrt (\<lambda>a b. t_end a \<le> t_start b) ?ts"
    using collect_targets_shape [OF assms] by auto
  have "sorted_wrt (\<lambda>a b. \<not> overlap a b) ?ts"
    using shape(2) by (rule sorted_wrt_mono_rel [rotated]) (simp add: apart_no_overlap)
  then have "sorted_wrt (\<lambda>a b. \<not> overlap a b) (sort_targets ?ts)"
    unfolding sort_targets_def by (rule array_sort_symmetric [OF symp_no_overlap])
  then have apart: "\<forall>i j. i < j \<and> j < length (extraction_plan nf sf) \<longrightarrow>
      \<not> overlap (extraction_plan nf sf ! i) (extraction_plan nf sf ! j)"
    by (simp add: sorted_wrt_iff_nth_less extraction_plan_def)
  have desc: "\<forall>i j. i < j \<and> j < length (extraction_plan nf sf) \<longrightarrow>
      t_start (extraction_plan nf sf ! j) \<le> t_start (extraction_plan nf sf ! i)"
    using sort_targets_descending [of ?ts]
    by (simp add: sorted_wrt_iff_nth_less extraction_plan_def)
  have len: "length (extraction_plan nf sf) = length (qualifying nf sf)"
    using shape(1) by (simp add: extraction_plan_def sort_targets_def length_array_sort)
  have strict: "(\<forall>t \<in> set (extraction_plan nf sf). t_start t < t_end t) \<longrightarrow>
          (\<forall>i j. i < j \<and> j < length (extraction_plan nf sf) \<longrightarrow>
             t_start (extraction_plan nf sf ! j) < t_start (extraction_plan nf sf ! i))"
    using strictly_descending [OF desc apart] by blast
  from len desc apart strict show ?thesis by blast
qed

lemma planner_ordering_invariant_example:
  "parsed_tree index_ts \<and> parsed_ranges index_ts
   \<and> length (qualifying NodeFlags_ts index_ts) = 5
   \<and> length (extraction_plan NodeFlags_ts index_ts) = 5
   \<and> list_all (\<lambda>t. t_start t < t_end t) (extraction_plan NodeFlags_ts index_ts)
   \<and> t_start (extraction_plan NodeFlags_ts index_ts ! 1)
       < t_start (extraction_plan NodeFlags_ts index_ts ! 0)
   \<and> \<not> overlap (extraction_plan NodeFlags_ts index_ts ! 0)
                  (extraction_plan NodeFlags_ts index_ts ! 1)
   \<and> map t_label (extraction_plan NodeFlags_ts index_ts)
       = [''Qux'', ''bar'', ''K'', ''Baz'', ''Foo'']"
proof -
  have a: "parsed_tree index_ts" by code_simp
  have b: "parsed_ranges index_ts" by code_simp
  have c: "length (qualifying NodeFlags_ts index_ts) = 5" by code_simp
  have d: "map t_label (extraction_plan NodeFlags_ts index_ts)
       = [''Qux'', ''bar'', ''K'', ''Baz'', ''Foo'']" by code_simp
  have e: "list_all (\<lambda>t. t_start t < t_end t) (extraction_plan NodeFlags_ts index_ts)"
    by code_simp
  then have "\<forall>t \<in> set (extraction_plan NodeFlags_ts index_ts). t_start t < t_end t"
    by (simp add: list_all_iff)
  then show ?thesis
    using planner_ordering_invariant [OF a b, of NodeFlags_ts] a b c d e by simp
qed

section \<open>The other walk\<close>

text \<open>In a parsed file the other walk records the ranges of the same targets, in the order
  of the walk, which is the order of the source text; for the end-to-end file that is the
  reverse of the sorted plan.\<close>

lemma fold_visit_v1_idle:
  "(\<And>d. d \<in> set (descendants n) \<Longrightarrow> parent d \<noteq> Some (nid sf))
   \<Longrightarrow> fold (visit_v1 nf doc sf) (children n) acc = acc"
proof (induction n arbitrary: acc)
  case (Node i p k s e cs)
  have "fold (visit_v1 nf doc sf) xs acc = acc" if "set xs \<subseteq> set cs" for xs acc
    using that
  proof (induction xs arbitrary: acc)
    case Nil
    then show ?case by simp
  next
    case (Cons x xs)
    have x: "x \<in> set cs" using Cons.prems by simp
    have nx: "parent x \<noteq> Some (nid sf)" using Node.prems x by auto
    have "\<And>d. d \<in> set (descendants x) \<Longrightarrow> parent d \<noteq> Some (nid sf)"
      using Node.prems x by auto
    then have "fold (visit_v1 nf doc sf) (children x) acc = acc" using Node.IH x by blast
    then have "visit_v1 nf doc sf x acc = acc" using nx by (simp add: visit_v1.simps)
    then show ?case using Cons by simp
  qed
  then show ?case by simp
qed

lemma visit_v1_statement:
  assumes "parsed_tree sf" "c \<in> set (children sf)"
  shows "visit_v1 nf doc sf c acc = acc @ map (range_of doc) (visit nf sf c [])"
proof (cases "isTopLevelDeclaration nf c sf")
  case False
  have "fold (visit_v1 nf doc sf) (children c) acc = acc"
    using nested_parent [OF assms] by (rule fold_visit_v1_idle)
  moreover have "visit nf sf c [] = []"
    using visit_unclassified_child [OF assms False] .
  ultimately show ?thesis
    using False by (simp add: visit_v1.simps [of nf doc sf c] classifiers_agree)
next
  case True
  then show ?thesis
    by (auto simp: visit_v1.simps [of nf doc sf c] visit.simps [of nf sf c] classifiers_agree
        push_def pushNameRange_def range_of_def isTopLevelDeclaration_def Let_def
        split: if_splits node_kind.splits list.splits binding_name.splits option.splits)
qed

lemma fold_visit_v1_statements:
  assumes "parsed_tree sf"
  shows "set cs \<subseteq> set (children sf) \<Longrightarrow>
    fold (visit_v1 nf doc sf) cs acc
      = acc @ map (range_of doc) (concat (map (\<lambda>c. visit nf sf c []) cs))"
proof (induction cs arbitrary: acc)
  case Nil
  then show ?case by simp
next
  case (Cons x xs)
  then show ?case
    using visit_v1_statement [OF assms, of x nf doc acc] by simp
qed

lemma other_walk_source_order:
  assumes "parsed_tree sf"
  shows "collect_ranges_v1 nf doc sf = map (range_of doc) (collect_targets nf sf)"
proof -
  have "parent sf \<noteq> Some (nid sf)" using assms by (simp add: parsed_tree_def)
  then have "collect_ranges_v1 nf doc sf = fold (visit_v1 nf doc sf) (children sf) []"
    by (simp add: collect_ranges_v1_def visit_v1.simps [of nf doc sf sf])
  then show ?thesis
    using fold_visit_v1_statements [OF assms, of "children sf" nf doc "[]"]
    by (simp add: collect_targets_concat [OF assms])
qed

text \<open>
  \<^bold>\<open>C1.\<close> The other \<^verbatim>\<open>explodeDocument\<close> does not keep the ordering invariant. For the file of
  the end-to-end test its walk records the five name ranges in the order of the source text
  (\<^verbatim>\<open>Foo\<close>, \<^verbatim>\<open>Baz\<close>, \<^verbatim>\<open>K\<close>, \<^verbatim>\<open>bar\<close>, \<^verbatim>\<open>Qux\<close>), each before the next, and with every command
  working it asks for the code actions of the five ranges in that order. The planner that
  sorts gives the same five targets in the opposite order.
\<close>

theorem other_command_source_order:
  "collect_ranges_v1 NodeFlags_ts index_doc index_ts
     = [((1, 17), (1, 20)), ((2, 21), (2, 24)), ((3, 16), (3, 17)), ((4, 20), (4, 23)),
        ((5, 17), (5, 20))]
   \<and> sorted_wrt (\<lambda>a b. isBefore (fst a) (fst b))
        (collect_ranges_v1 NodeFlags_ts index_doc index_ts)
   \<and> explodeDocument_v1 index_host [] =
     (Inr (),
      [CreateSourceFile ''/ws/index.ts'',
       WithProgress ''Explode Document: Move each decl to a new file'',
       ProgressReport ''Processing 1/5'',
       ExecuteCodeActionProvider ''/ws/index.ts'' (1, 17) (1, 20) (Some ''refactor.move.newFile''),
       ExecuteCommand ''_typescript.applyRefactoring'',
       ProgressReport ''Processing 2/5'',
       ExecuteCodeActionProvider ''/ws/index.ts'' (2, 21) (2, 24) (Some ''refactor.move.newFile''),
       ExecuteCommand ''_typescript.applyRefactoring'',
       ProgressReport ''Processing 3/5'',
       ExecuteCodeActionProvider ''/ws/index.ts'' (3, 16) (3, 17) (Some ''refactor.move.newFile''),
       ExecuteCommand ''_typescript.applyRefactoring'',
       ProgressReport ''Processing 4/5'',
       ExecuteCodeActionProvider ''/ws/index.ts'' (4, 20) (4, 23) (Some ''refactor.move.newFile''),
       ExecuteCommand ''_typescript.applyRefactoring'',
       ProgressReport ''Processing 5/5'',
       ExecuteCodeActionProvider ''/ws/index.ts'' (5, 17) (5, 20) (Some ''refactor.move.newFile''),
       ExecuteCommand ''_typescript.applyRefactoring'',
       ShowInformationMessage
         ''Explode Document: Done. Sanity-check the results before committing.''])
   \<and> map t_start (extraction_plan NodeFlags_ts index_ts) = [163, 126, 87, 53, 18]
   \<and> map (range_of index_doc) (extraction_plan NodeFlags_ts index_ts)
     = [((5, 17), (5, 20)), ((4, 20), (4, 23)), ((3, 16), (3, 17)), ((2, 21), (2, 24)),
        ((1, 17), (1, 20))]"
proof -
  have a: "collect_ranges_v1 NodeFlags_ts index_doc index_ts
     = [((1, 17), (1, 20)), ((2, 21), (2, 24)), ((3, 16), (3, 17)), ((4, 20), (4, 23)),
        ((5, 17), (5, 20))]"
    by code_simp
  have b: "sorted_wrt (\<lambda>a b. isBefore (fst a) (fst b))
     (collect_ranges_v1 NodeFlags_ts index_doc index_ts)"
    unfolding a by (simp add: isBefore_def)
  have c: "explodeDocument_v1 index_host [] =
     (Inr (),
      [CreateSourceFile ''/ws/index.ts'',
       WithProgress ''Explode Document: Move each decl to a new file'',
       ProgressReport ''Processing 1/5'',
       ExecuteCodeActionProvider ''/ws/index.ts'' (1, 17) (1, 20) (Some ''refactor.move.newFile''),
       ExecuteCommand ''_typescript.applyRefactoring'',
       ProgressReport ''Processing 2/5'',
       ExecuteCodeActionProvider ''/ws/index.ts'' (2, 21) (2, 24) (Some ''refactor.move.newFile''),
       ExecuteCommand ''_typescript.applyRefactoring'',
       ProgressReport ''Processing 3/5'',
       ExecuteCodeActionProvider ''/ws/index.ts'' (3, 16) (3, 17) (Some ''refactor.move.newFile''),
       ExecuteCommand ''_typescript.applyRefactoring'',
       ProgressReport ''Processing 4/5'',
       ExecuteCodeActionProvider ''/ws/index.ts'' (4, 20) (4, 23) (Some ''refactor.move.newFile''),
       ExecuteCommand ''_typescript.applyRefactoring'',
       ProgressReport ''Processing 5/5'',
       ExecuteCodeActionProvider ''/ws/index.ts'' (5, 17) (5, 20) (Some ''refactor.move.newFile''),
       ExecuteCommand ''_typescript.applyRefactoring'',
       ShowInformationMessage
         ''Explode Document: Done. Sanity-check the results before committing.''])"
    by code_simp
  have d: "map t_start (extraction_plan NodeFlags_ts index_ts) = [163, 126, 87, 53, 18]"
    by code_simp
  have e: "map (range_of index_doc) (extraction_plan NodeFlags_ts index_ts)
     = [((5, 17), (5, 20)), ((4, 20), (4, 23)), ((3, 16), (3, 17)), ((2, 21), (2, 24)),
        ((1, 17), (1, 20))]"
    by code_simp
  show ?thesis by (intro conjI a b c d e)
qed

section \<open>Running the command\<close>

lemma accepted_languages:
  "isTSLike doc \<longleftrightarrow>
     languageId doc \<in> {''typescript'', ''typescriptreact'', ''javascript'', ''javascriptreact''}"
  by (auto simp: isTSLike_def)

lemma no_editor_run:
  "activeTextEditor h = None \<Longrightarrow>
   explodeDocument h tr =
     (Inr (), tr @ [OutputShow, Log ''==== Explode Document invoked ===='',
                    Log ''Explode Document: No active editor'',
                    ShowErrorMessage ''Explode Document: No active editor''])"
  by (simp add: explodeDocument_def log_def Let_def)

lemma other_language_run:
  "activeTextEditor h = Some ed \<Longrightarrow> \<not> isTSLike (document ed) \<Longrightarrow>
   explodeDocument h tr =
     (Inr (), tr @ [OutputShow, Log ''==== Explode Document invoked ===='',
                    Log (''Active document '' @ uri_fsPath (document ed) @ '' lang=''
                         @ languageId (document ed)),
                    Log ''Explode Document: TS or JS files only'',
                    ShowErrorMessage ''Explode Document: TS or JS files only''])"
  by (simp add: explodeDocument_def log_def Let_def)

text \<open>
  \<^bold>\<open>C7.\<close> Refusal. When there is no active editor, or the language of the active document
  is none of \<^verbatim>\<open>typescript\<close>, \<^verbatim>\<open>typescriptreact\<close>, \<^verbatim>\<open>javascript\<close>, \<^verbatim>\<open>javascriptreact\<close>,
  the command returns normally, and besides writing to its output channel it does one thing:
  it shows one error message. It does not parse, wake the TypeScript extension, touch the
  selection or ask for or run any code action.
\<close>

theorem refusal_conditions:
  assumes "activeTextEditor h = None
     \<or> (\<exists>ed. activeTextEditor h = Some ed
           \<and> languageId (document ed)
               \<notin> {''typescript'', ''typescriptreact'', ''javascript'', ''javascriptreact''})"
  shows "\<exists>evs msg. explodeDocument h tr = (Inr (), tr @ evs)
           \<and> filter (\<lambda>e. \<not> is_output e) evs = [ShowErrorMessage msg]
           \<and> (\<forall>e \<in> set evs. \<not> is_refactor_step e \<and> \<not> is_preparation e)"
proof (cases "activeTextEditor h")
  case None
  show ?thesis
    unfolding no_editor_run [OF None]
    by (intro exI [of _ "[OutputShow, Log ''==== Explode Document invoked ===='',
                    Log ''Explode Document: No active editor'',
                    ShowErrorMessage ''Explode Document: No active editor'']"]
          exI [of _ "''Explode Document: No active editor''"]) simp
next
  case (Some ed)
  with assms have "\<not> isTSLike (document ed)"
    by (simp add: accepted_languages)
  from other_language_run [OF Some this] show ?thesis
    by (intro exI [of _ "[OutputShow, Log ''==== Explode Document invoked ===='',
                    Log (''Active document '' @ uri_fsPath (document ed) @ '' lang=''
                         @ languageId (document ed)),
                    Log ''Explode Document: TS or JS files only'',
                    ShowErrorMessage ''Explode Document: TS or JS files only'']"]
          exI [of _ "''Explode Document: TS or JS files only''"]) simp
qed

theorem refusal_conditions_witness:
  "activeTextEditor (working_host None root0) = None
   \<and> languageId notes_doc
       \<notin> {''typescript'', ''typescriptreact'', ''javascript'', ''javascriptreact''}
   \<and> explodeDocument (working_host None root0) [] =
       (Inr (), [OutputShow, Log ''==== Explode Document invoked ===='',
                 Log ''Explode Document: No active editor'',
                 ShowErrorMessage ''Explode Document: No active editor''])
   \<and> explodeDocument (working_host (Some \<lparr>document = notes_doc\<rparr>) root0) [] =
       (Inr (), [OutputShow, Log ''==== Explode Document invoked ===='',
                 Log ''Active document /ws/notes.md lang=markdown'',
                 Log ''Explode Document: TS or JS files only'',
                 ShowErrorMessage ''Explode Document: TS or JS files only''])"
proof -
  have a: "activeTextEditor (working_host None root0) = None"
    by (simp add: working_host_def)
  have b: "languageId notes_doc
       \<notin> {''typescript'', ''typescriptreact'', ''javascript'', ''javascriptreact''}"
    by (simp add: notes_doc_def)
  have c: "activeTextEditor (working_host (Some \<lparr>document = notes_doc\<rparr>) root0)
      = Some \<lparr>document = notes_doc\<rparr>"
    by (simp add: working_host_def)
  have d: "explodeDocument (working_host None root0) [] =
       (Inr (), [OutputShow, Log ''==== Explode Document invoked ===='',
                 Log ''Explode Document: No active editor'',
                 ShowErrorMessage ''Explode Document: No active editor''])"
    by code_simp
  have e: "explodeDocument (working_host (Some \<lparr>document = notes_doc\<rparr>) root0) [] =
       (Inr (), [OutputShow, Log ''==== Explode Document invoked ===='',
                 Log ''Active document /ws/notes.md lang=markdown'',
                 Log ''Explode Document: TS or JS files only'',
                 ShowErrorMessage ''Explode Document: TS or JS files only''])"
    by code_simp
  show ?thesis
    using refusal_conditions [of "working_host None root0" "[]"]
      refusal_conditions [of "working_host (Some \<lparr>document = notes_doc\<rparr>) root0" "[]"]
      a b c d e
    by simp
qed

lemma diagnostics_loop_events:
  "\<exists>evs. diagnostics_loop h doc i tr = tr @ evs
         \<and> (\<forall>e \<in> set evs. (is_output e \<or> is_preparation e) \<and> \<not> is_parse e)"
proof (induction h doc i tr rule: diagnostics_loop.induct)
  case (1 h doc i tr)
  show ?case
  proof (cases "i < 20 \<and> \<not> getDiagnostics h tr")
    case True
    with 1 obtain evs where
      "diagnostics_loop h doc (i + 1) (tr @ [Sleep 100]) = (tr @ [Sleep 100]) @ evs"
      "\<forall>e \<in> set evs. (is_output e \<or> is_preparation e) \<and> \<not> is_parse e"
      by blast
    with True show ?thesis
      by (intro exI [of _ "Sleep 100 # evs"]) (simp add: diagnostics_loop.simps [of h doc i tr])
  next
    case False
    then show ?thesis
      by (auto simp: diagnostics_loop.simps [of h doc i tr] log_def)
  qed
qed

lemma waitForTypeScriptReady_events:
  "\<exists>evs. snd (waitForTypeScriptReady h doc tr) = tr @ evs
         \<and> (\<forall>e \<in> set evs. (is_output e \<or> is_preparation e) \<and> \<not> is_parse e)"
proof -
  have loop: "\<exists>evs. diagnostics_loop h doc 0 (tr @ pre) = tr @ evs
         \<and> (\<forall>e \<in> set evs. (is_output e \<or> is_preparation e) \<and> \<not> is_parse e)"
    if "\<forall>e \<in> set pre. (is_output e \<or> is_preparation e) \<and> \<not> is_parse e" for pre
  proof -
    obtain evs where "diagnostics_loop h doc 0 (tr @ pre) = (tr @ pre) @ evs"
      "\<forall>e \<in> set evs. (is_output e \<or> is_preparation e) \<and> \<not> is_parse e"
      using diagnostics_loop_events by blast
    with that show ?thesis by (intro exI [of _ "pre @ evs"]) auto
  qed
  show ?thesis
  proof (cases "getExtension h ''vscode.typescript-language-features''")
    case None
    then show ?thesis
      using loop [of "[Log ''TypeScript extension vscode.typescript-language-features not found'']"]
      by (simp add: waitForTypeScriptReady_def log_def)
  next
    case (Some ext_id)
    let ?pre = "[Log (''Activating TypeScript extension '' @ ext_id), ActivateExtension ext_id]"
    show ?thesis
    proof (cases "activate h (tr @ ?pre)")
      case (Inr u)
      then show ?thesis
        using Some loop [of "?pre @ [Log ''TypeScript extension activated'']"]
        by (simp add: waitForTypeScriptReady_def log_def)
    next
      case (Inl e)
      show ?thesis
      proof (cases "read_message e")
        case (Inl thrown)
        then show ?thesis
          using Some \<open>activate h (tr @ ?pre) = Inl e\<close>
          by (intro exI [of _ ?pre]) (simp add: waitForTypeScriptReady_def log_def)
      next
        case (Inr m)
        then show ?thesis
          using Some \<open>activate h (tr @ ?pre) = Inl e\<close>
            loop [of "?pre @ [Log (''TypeScript extension activation error: '' @ m)]"]
          by (simp add: waitForTypeScriptReady_def log_def)
      qed
    qed
  qed
qed

text \<open>
  \<^bold>\<open>C8.\<close> Empty result. When the active document is accepted, the command gets as far as
  the parser, and the parsed tree has no qualifying top-level node, the plan is empty and the
  command returns normally; the last thing it does is to show an information message, it
  shows no other message, and before it there are only writes to the output channel and the
  preparation (waking the TypeScript extension, waiting, parsing): no step of the refactoring
  loop.
\<close>

theorem empty_result:
  assumes "activeTextEditor h = Some ed"
    and "languageId (document ed)
           \<in> {''typescript'', ''typescriptreact'', ''javascript'', ''javascriptreact''}"
    and "parse_reached h tr"
    and "sf = createSourceFile h (fileName (document ed)) (getText (document ed))"
    and "parsed_tree sf"
    and "qualifying (NodeFlags h) sf = []"
  shows "extraction_plan (NodeFlags h) sf = []
       \<and> (\<exists>evs msg. explodeDocument h tr = (Inr (), tr @ evs @ [ShowInformationMessage msg])
              \<and> (\<forall>e \<in> set evs. is_output e \<or> is_preparation e))"
proof -
  let ?doc = "document ed"
  let ?pre = "[OutputShow, Log ''==== Explode Document invoked ===='',
             Log (''Active document '' @ uri_fsPath ?doc @ '' lang='' @ languageId ?doc)]"
  have "concat (map (\<lambda>c. visit (NodeFlags h) sf c []) (children sf)) = []"
    using assms(5,6) visit_unclassified_child [of sf _ "NodeFlags h" "[]"]
    by (auto simp: qualifying_def filter_empty_conv)
  then have empty: "collect_targets (NodeFlags h) sf = []"
    using assms(5) by (simp add: collect_targets_concat)
  obtain evs where evs: "snd (waitForTypeScriptReady h ?doc (tr @ ?pre)) = (tr @ ?pre) @ evs"
    "\<forall>e \<in> set evs. (is_output e \<or> is_preparation e) \<and> \<not> is_parse e"
    using waitForTypeScriptReady_events by blast
  have ts: "isTSLike ?doc" using assms(2) by (simp add: accepted_languages)
  have ready: "fst (waitForTypeScriptReady h ?doc (tr @ ?pre)) = Inr ()"
  proof (cases "fst (waitForTypeScriptReady h ?doc (tr @ ?pre))")
    case (Inl thrown)
    then have "waitForTypeScriptReady h ?doc (tr @ ?pre) = (Inl thrown, (tr @ ?pre) @ evs)"
      using evs(1) by (cases "waitForTypeScriptReady h ?doc (tr @ ?pre)") simp
    then have "snd (explodeDocument h tr) = tr @ ?pre @ evs"
      using assms(1) ts by (simp add: explodeDocument_def log_def Let_def)
    then have "\<not> parse_reached h tr"
      using evs(2) by (auto simp: parse_reached_def list_ex_iff)
    with assms(3) show ?thesis by simp
  next
    case (Inr u)
    then show ?thesis by simp
  qed
  then have "waitForTypeScriptReady h ?doc (tr @ ?pre) = (Inr (), (tr @ ?pre) @ evs)"
    using evs(1) by (cases "waitForTypeScriptReady h ?doc (tr @ ?pre)") simp
  then have "explodeDocument h tr =
      (Inr (), tr @ (?pre
           @ evs @ [CreateSourceFile (fileName ?doc),
                    Log ''Explode Document: No top-level declarations found''])
         @ [ShowInformationMessage ''Explode Document: No top-level declarations found''])"
    using assms(1) ts empty assms(4) [symmetric]
    by (simp add: explodeDocument_def log_def Let_def)
  moreover have "\<forall>e \<in> set (?pre
           @ evs @ [CreateSourceFile (fileName ?doc),
                    Log ''Explode Document: No top-level declarations found'']).
       is_output e \<or> is_preparation e"
    using evs(2) by auto
  ultimately show ?thesis
    using empty by (simp add: extraction_plan_def sort_targets_def array_sort_def)
qed

theorem empty_result_witness:
  "activeTextEditor (working_host (Some \<lparr>document = script_doc\<rparr>) script_js)
     = Some \<lparr>document = script_doc\<rparr>
   \<and> languageId script_doc
       \<in> {''typescript'', ''typescriptreact'', ''javascript'', ''javascriptreact''}
   \<and> parse_reached (working_host (Some \<lparr>document = script_doc\<rparr>) script_js) []
   \<and> parsed_tree script_js
   \<and> qualifying NodeFlags_ts script_js = []
   \<and> extraction_plan NodeFlags_ts script_js = []
   \<and> explodeDocument (working_host (Some \<lparr>document = script_doc\<rparr>) script_js) [] =
       (Inr (),
        [OutputShow, Log ''==== Explode Document invoked ===='',
         Log ''Active document /ws/script.js lang=javascript'',
         Log ''Activating TypeScript extension vscode.typescript-language-features'',
         ActivateExtension ''vscode.typescript-language-features'',
         Log ''TypeScript extension activated'',
         Log ''Diagnostics check 1 ok for /ws/script.js'',
         CreateSourceFile ''/ws/script.js'',
         Log ''Explode Document: No top-level declarations found'',
         ShowInformationMessage ''Explode Document: No top-level declarations found''])"
proof -
  let ?h = "working_host (Some \<lparr>document = script_doc\<rparr>) script_js"
  have a: "activeTextEditor ?h = Some \<lparr>document = script_doc\<rparr>"
    by (simp add: working_host_def)
  have b: "languageId (document \<lparr>document = script_doc\<rparr>)
       \<in> {''typescript'', ''typescriptreact'', ''javascript'', ''javascriptreact''}"
    by (simp add: script_doc_def)
  have c: "script_js = createSourceFile ?h (fileName (document \<lparr>document = script_doc\<rparr>))
      (getText (document \<lparr>document = script_doc\<rparr>))"
    by (simp add: working_host_def)
  have d: "parsed_tree script_js" by code_simp
  have n: "NodeFlags ?h = NodeFlags_ts" by (simp add: working_host_def)
  have e: "qualifying (NodeFlags ?h) script_js = []" unfolding n by code_simp
  have f: "explodeDocument ?h [] =
       (Inr (),
        [OutputShow, Log ''==== Explode Document invoked ===='',
         Log ''Active document /ws/script.js lang=javascript'',
         Log ''Activating TypeScript extension vscode.typescript-language-features'',
         ActivateExtension ''vscode.typescript-language-features'',
         Log ''TypeScript extension activated'',
         Log ''Diagnostics check 1 ok for /ws/script.js'',
         CreateSourceFile ''/ws/script.js'',
         Log ''Explode Document: No top-level declarations found'',
         ShowInformationMessage ''Explode Document: No top-level declarations found''])"
    by code_simp
  have g: "parse_reached ?h []"
    unfolding parse_reached_def f by simp
  show ?thesis
    using empty_result [OF a b g c d e] a b d e f g n by simp
qed

text \<open>When waking the TypeScript extension rejects with \<^verbatim>\<open>null\<close>, the command is left by the
  \<^verbatim>\<open>TypeError\<close> of the handler before it parses or shows anything.\<close>

lemma activation_rejected_with_null:
  "explodeDocument (activation_rejecting_host JsNull) [] =
     (Inl (cannot_read_message JsNull),
      [OutputShow, Log ''==== Explode Document invoked ===='',
       Log ''Active document /ws/script.js lang=javascript'',
       Log ''Activating TypeScript extension vscode.typescript-language-features'',
       ActivateExtension ''vscode.typescript-language-features''])
   \<and> \<not> parse_reached (activation_rejecting_host JsNull) []"
proof -
  have a: "explodeDocument (activation_rejecting_host JsNull) [] =
     (Inl (cannot_read_message JsNull),
      [OutputShow, Log ''==== Explode Document invoked ===='',
       Log ''Active document /ws/script.js lang=javascript'',
       Log ''Activating TypeScript extension vscode.typescript-language-features'',
       ActivateExtension ''vscode.typescript-language-features''])"
    by code_simp
  show ?thesis unfolding parse_reached_def a by simp
qed

subsection \<open>Rejections that have a message to read\<close>

text \<open>As long as no command of the host rejects with \<^verbatim>\<open>null\<close> or \<^verbatim>\<open>undefined\<close>, the handlers
  do not throw: every round of the loop and the command return normally, and every target of
  the plan is attempted.\<close>

lemma read_message_returns:
  "v \<noteq> JsNull \<Longrightarrow> v \<noteq> JsUndefined \<Longrightarrow> \<exists>m. read_message v = Inr m"
  by (cases v rule: read_message.cases) auto

lemma waitForTypeScriptReady_activated:
  assumes "\<forall>tr. \<not> nullish (activate h tr)"
  shows "fst (waitForTypeScriptReady h doc tr) = Inr ()"
proof -
  have "\<exists>m. read_message e = Inr m" if "activate h tr' = Inl e" for tr' e
    using assms that read_message_returns [of e]
    by (auto simp: nullish_def)
  then show ?thesis
    by (fastforce simp: waitForTypeScriptReady_def Let_def split: option.splits sum.splits)
qed

lemma waitForTypeScriptReady_returns:
  assumes "never_nullish h"
  shows "fst (waitForTypeScriptReady h doc tr) = Inr ()"
  using assms by (intro waitForTypeScriptReady_activated) (simp add: never_nullish_def)

lemma query_without_kind_rejection:
  assumes "never_nullish h"
    and "fst (query_without_kind h doc a b tr) = Inl e"
  shows "e \<noteq> JsNull \<and> e \<noteq> JsUndefined"
  using assms
  by (auto simp: query_without_kind_def never_nullish_def nullish_def Let_def
      split: sum.splits)

lemma query_rejection:
  assumes "never_nullish h"
    and "fst (queryMoveNewFileActions h doc a b tr) = Inl e"
  shows "e \<noteq> JsNull \<and> e \<noteq> JsUndefined"
proof -
  let ?tr1 = "log (''Query provider with kind '' @ KIND @ '' at ''
                     @ show_position (range_start a b) @ ''-''
                     @ show_position (range_end a b)) tr
                  @ [ExecuteCodeActionProvider (uri_fsPath doc) a b (Some KIND)]"
  show ?thesis
  proof (cases "executeCodeActionProvider h ?tr1")
    case (Inl err)
    then have "err \<noteq> JsNull \<and> err \<noteq> JsUndefined"
      using assms(1) by (auto simp: never_nullish_def nullish_def)
    then obtain m where "read_message err = Inr m"
      using read_message_returns by blast
    then show ?thesis
      using assms Inl query_without_kind_rejection [of h doc a b _ e]
      by (simp add: queryMoveNewFileActions_def Let_def)
  next
    case (Inr r)
    then show ?thesis
      using assms query_without_kind_rejection [of h doc a b _ e]
      by (simp add: queryMoveNewFileActions_def Let_def split: if_splits)
  qed
qed

lemma provider_path_rejection:
  assumes "never_nullish h"
    and "fst (provider_path h doc t tr) = Inl e"
  shows "e \<noteq> JsNull \<and> e \<noteq> JsUndefined"
proof (cases "queryMoveNewFileActions h doc (positionAt doc (t_start t))
                (positionAt doc (t_end t)) tr")
  case (Pair r tr1)
  show ?thesis
  proof (cases r)
    case (Inl err)
    then show ?thesis
      using assms Pair
        query_rejection [of h doc "positionAt doc (t_start t)" "positionAt doc (t_end t)" tr e]
      by (simp add: provider_path_def)
  next
    case (Inr actions)
    then show ?thesis
      using assms Pair
      by (auto simp: provider_path_def Let_def never_nullish_def nullish_def
          split: list.splits sum.splits)
  qed
qed

lemma try_provider_returns:
  assumes "never_nullish h"
  shows "\<exists>used. fst (try_provider h doc t tr) = Inr used"
proof (cases "provider_path h doc t tr")
  case (Pair r tr1)
  show ?thesis
  proof (cases r)
    case (Inl e)
    then have "e \<noteq> JsNull \<and> e \<noteq> JsUndefined"
      using provider_path_rejection [OF assms, of doc t tr e] Pair by simp
    then obtain m where "read_message e = Inr m"
      using read_message_returns by blast
    then have "fst (try_provider h doc t tr) = Inr False"
      using Pair Inl by (simp add: try_provider_def)
    then show ?thesis by blast
  next
    case (Inr used)
    then show ?thesis using Pair by (simp add: try_provider_def)
  qed
qed

lemma executeEditorCodeAction_returns:
  assumes "never_nullish h"
  shows "\<exists>ok. fst (executeEditorCodeAction h knd tr) = Inr ok"
proof -
  have "\<exists>m. read_message e = Inr m" if "editorActionCodeAction h tr' = Inl e" for tr' e
    using assms that read_message_returns [of e]
    by (auto simp: never_nullish_def nullish_def)
  then show ?thesis
    by (fastforce simp: executeEditorCodeAction_def Let_def split: sum.splits)
qed

lemma fallback_path_returns:
  assumes "never_nullish h"
  shows "fst (fallback_path h t tr) = Inr ()"
proof -
  let ?tr1 = "log (''No provider-executed action for '' @ t_label t
                     @ ''. Fallback to editor.action.codeAction kind=refactor.move.newFile'') tr"
  obtain ok where "fst (executeEditorCodeAction h ''refactor.move.newFile'' ?tr1) = Inr ok"
    using executeEditorCodeAction_returns [OF assms] by blast
  then show ?thesis
    by (cases "executeEditorCodeAction h ''refactor.move.newFile'' ?tr1")
       (simp add: fallback_path_def Let_def)
qed

lemma process_target_returns:
  assumes "never_nullish h"
  shows "fst (process_target h doc len idx t tr) = Inr ()"
proof -
  obtain used where "fst (try_provider h doc t (announce_target doc len idx t tr)) = Inr used"
    using try_provider_returns [OF assms] by blast
  then show ?thesis
    using fallback_path_returns [OF assms]
    by (cases "try_provider h doc t (announce_target doc len idx t tr)")
       (simp add: process_target_def)
qed

lemma process_targets_returns:
  assumes "never_nullish h"
  shows "fst (process_targets h doc len dn ts tr) = Inr ()"
proof (induction ts arbitrary: dn tr)
  case Nil
  then show ?case by simp
next
  case (Cons t ts)
  obtain tr1 where "process_target h doc len (dn + 1) t tr = (Inr (), tr1)"
    using process_target_returns [OF assms, of doc len "dn + 1" t tr]
    by (cases "process_target h doc len (dn + 1) t tr") auto
  then show ?case using Cons.IH by simp
qed

lemma explodeDocument_returns:
  assumes "never_nullish h"
  shows "fst (explodeDocument h tr) = Inr ()"
proof -
  have loop: "fst (case process_targets h doc len dn ts tr' of
          (Inl err, tr8) \<Rightarrow> (Inl err, tr8)
        | (Inr _, tr8) \<Rightarrow> (Inr (), f tr8)) = Inr ()" for doc len dn ts tr' f
    using process_targets_returns [OF assms, of doc len dn ts tr']
    by (cases "process_targets h doc len dn ts tr'") (auto split: sum.splits)
  have ready: "\<exists>tr3. waitForTypeScriptReady h doc tr' = (Inr (), tr3)" for doc tr'
    using waitForTypeScriptReady_returns [OF assms, of doc tr']
    by (cases "waitForTypeScriptReady h doc tr'") auto
  show ?thesis
  proof (cases "activeTextEditor h")
    case None
    then show ?thesis by (simp add: explodeDocument_def Let_def)
  next
    case (Some ed)
    obtain tr3 where "waitForTypeScriptReady h (document ed)
        (log (''Active document '' @ uri_fsPath (document ed) @ '' lang=''
              @ languageId (document ed))
           (log ''==== Explode Document invoked ===='' (tr @ [OutputShow]))) = (Inr (), tr3)"
      using ready by blast
    then show ?thesis
      using Some loop by (simp add: explodeDocument_def Let_def)
  qed
qed

subsection \<open>The attempts of a run\<close>

lemma query_without_kind_attempt:
  "\<exists>evs. snd (query_without_kind h doc a b tr) = tr @ evs \<and> filter is_attempt evs = []"
  by (auto simp: query_without_kind_def log_def Let_def split: sum.splits)

lemma query_attempt:
  "\<exists>evs. snd (queryMoveNewFileActions h doc a b tr) = tr @ evs
         \<and> filter is_attempt evs = [ExecuteCodeActionProvider (uri_fsPath doc) a b (Some KIND)]"
proof -
  let ?q = "ExecuteCodeActionProvider (uri_fsPath doc) a b (Some KIND)"
  let ?l = "Log (''Query provider with kind '' @ KIND @ '' at ''
                     @ show_position (range_start a b) @ ''-''
                     @ show_position (range_end a b))"
  have next_query: "\<exists>evs. snd (query_without_kind h doc a b (tr @ [?l, ?q] @ pre)) = tr @ evs
         \<and> filter is_attempt evs = [?q]" if "filter is_attempt pre = []" for pre
  proof -
    obtain evs where "snd (query_without_kind h doc a b (tr @ [?l, ?q] @ pre))
        = (tr @ [?l, ?q] @ pre) @ evs" "filter is_attempt evs = []"
      using query_without_kind_attempt by blast
    with that show ?thesis by (intro exI [of _ "[?l, ?q] @ pre @ evs"]) simp
  qed
  show ?thesis
  proof (cases "executeCodeActionProvider h (tr @ [?l, ?q])")
    case (Inl e)
    show ?thesis
    proof (cases "read_message e")
      case (Inl thrown)
      then show ?thesis
        using \<open>executeCodeActionProvider h (tr @ [?l, ?q]) = Inl e\<close>
        by (intro exI [of _ "[?l, ?q]"]) (simp add: queryMoveNewFileActions_def log_def)
    next
      case (Inr m)
      then show ?thesis
        using \<open>executeCodeActionProvider h (tr @ [?l, ?q]) = Inl e\<close>
          next_query [of "[Log (''Provider kind query rejected: '' @ m)]"]
        by (simp add: queryMoveNewFileActions_def log_def)
    qed
  next
    case (Inr r)
    let ?a = "case r of None \<Rightarrow> [] | Some a \<Rightarrow> a"
    let ?pre = "[Log (''Provider returned '' @ show_nat (length ?a)
                             @ '' actions, filtered to ''
                             @ show_nat (length (filter (kind_is_newFile h) ?a))
                             @ '' by kind'')]"
    show ?thesis
    proof (cases "filter (kind_is_newFile h) ?a")
      case Nil
      then show ?thesis
        using Inr next_query [of ?pre]
        by (simp add: queryMoveNewFileActions_def log_def Let_def)
    next
      case (Cons x xs)
      then show ?thesis
        using Inr
        by (intro exI [of _ "[?l, ?q] @ ?pre"])
           (simp add: queryMoveNewFileActions_def log_def Let_def)
    qed
  qed
qed

lemma provider_path_attempt:
  "\<exists>evs. snd (provider_path h doc t tr) = tr @ evs
         \<and> filter is_attempt evs = [attempt_of doc t]"
proof -
  obtain evs where q:
    "snd (queryMoveNewFileActions h doc (positionAt doc (t_start t)) (positionAt doc (t_end t)) tr)
       = tr @ evs"
    "filter is_attempt evs = [attempt_of doc t]"
    using query_attempt unfolding attempt_of_def by blast
  show ?thesis
    using q
    by (cases "queryMoveNewFileActions h doc (positionAt doc (t_start t))
                 (positionAt doc (t_end t)) tr")
       (auto simp: provider_path_def log_def Let_def split: sum.splits list.splits)
qed

lemma try_provider_attempt:
  "\<exists>evs. snd (try_provider h doc t tr) = tr @ evs
         \<and> filter is_attempt evs = [attempt_of doc t]"
  using provider_path_attempt [of h doc t tr]
  by (cases "provider_path h doc t tr")
     (auto simp: try_provider_def log_def split: sum.splits)

lemma fallback_path_attempt:
  "\<exists>evs. snd (fallback_path h t tr) = tr @ evs \<and> filter is_attempt evs = []"
  by (auto simp: fallback_path_def executeEditorCodeAction_def log_def Let_def
      split: sum.splits)

text \<open>A round always starts with its query, also when it is left by an error.\<close>

lemma process_target_attempt:
  "filter is_attempt (snd (process_target h doc len idx t tr))
     = filter is_attempt tr @ [attempt_of doc t]"
proof -
  have a: "filter is_attempt (announce_target doc len idx t tr) = filter is_attempt tr"
    by (simp add: announce_target_def log_def Let_def)
  obtain evs where p:
    "snd (try_provider h doc t (announce_target doc len idx t tr))
       = announce_target doc len idx t tr @ evs"
    "filter is_attempt evs = [attempt_of doc t]"
    using try_provider_attempt by blast
  obtain used tr1 where u:
    "try_provider h doc t (announce_target doc len idx t tr) = (used, tr1)"
    by (cases "try_provider h doc t (announce_target doc len idx t tr)") auto
  obtain evs' where f: "snd (fallback_path h t tr1) = tr1 @ evs'" "filter is_attempt evs' = []"
    using fallback_path_attempt by blast
  show ?thesis
    using a p u f by (cases used) (simp_all add: process_target_def)
qed

lemma process_targets_attempts:
  assumes "never_nullish h"
  shows "filter is_attempt (snd (process_targets h doc len dn ts tr))
     = filter is_attempt tr @ map (attempt_of doc) ts"
proof (induction ts arbitrary: dn tr)
  case Nil
  then show ?case by simp
next
  case (Cons t ts)
  obtain tr1 where r: "process_target h doc len (dn + 1) t tr = (Inr (), tr1)"
    using process_target_returns [OF assms, of doc len "dn + 1" t tr]
    by (cases "process_target h doc len (dn + 1) t tr") auto
  then have "filter is_attempt tr1 = filter is_attempt tr @ [attempt_of doc t]"
    using process_target_attempt [of h doc len "dn + 1" t tr] by simp
  then show ?case using r Cons.IH [of "dn + 1" tr1] by simp
qed

lemma quiet_not_attempt: "is_output e \<or> is_preparation e \<Longrightarrow> \<not> is_attempt e"
  by (cases e) auto

lemma log_decls_attempts:
  "filter is_attempt (log_decls doc len i ts tr) = filter is_attempt tr"
  by (induction ts arbitrary: i tr) (auto simp: log_def)

lemma explodeDocument_attempts:
  assumes "never_nullish h" and "activeTextEditor h = Some ed" and "isTSLike (document ed)"
  shows "filter is_attempt (snd (explodeDocument h tr))
     = filter is_attempt tr @ map (attempt_of (document ed))
         (extraction_plan (NodeFlags h)
            (createSourceFile h (fileName (document ed)) (getText (document ed))))"
proof -
  let ?doc = "document ed"
  let ?ts = "collect_targets (NodeFlags h) (createSourceFile h (fileName ?doc) (getText ?doc))"
  let ?tr2 = "log (''Active document '' @ uri_fsPath ?doc @ '' lang='' @ languageId ?doc)
                (log ''==== Explode Document invoked ===='' (tr @ [OutputShow]))"
  obtain evs where evs: "snd (waitForTypeScriptReady h ?doc ?tr2) = ?tr2 @ evs"
    "\<forall>e \<in> set evs. (is_output e \<or> is_preparation e) \<and> \<not> is_parse e"
    using waitForTypeScriptReady_events by blast
  have w: "waitForTypeScriptReady h ?doc ?tr2 = (Inr (), ?tr2 @ evs)"
    using waitForTypeScriptReady_returns [OF assms(1), of ?doc ?tr2] evs(1)
    by (cases "waitForTypeScriptReady h ?doc ?tr2") simp
  have quiet: "filter is_attempt evs = []"
    using evs(2) quiet_not_attempt by (auto simp: filter_empty_conv)
  show ?thesis
  proof (cases "?ts = []")
    case True
    then show ?thesis
      using assms(2,3) w quiet
      by (simp add: explodeDocument_def Let_def log_def extraction_plan_def sort_targets_def
          array_sort_def)
  next
    case False
    let ?plan = "sort_targets ?ts"
    let ?tr7 = "log_decls ?doc (length ?plan) 0 ?plan
                  (log (''Found '' @ show_nat (length ?plan) @ '' top-level decls'')
                     (?tr2 @ evs @ [CreateSourceFile (fileName ?doc)]))
                @ [WithProgress ''Explode Document running'']"
    obtain tr8 where r: "process_targets h ?doc (length ?plan) 0 ?plan ?tr7 = (Inr (), tr8)"
      using process_targets_returns [OF assms(1), of ?doc "length ?plan" 0 ?plan ?tr7]
      by (cases "process_targets h ?doc (length ?plan) 0 ?plan ?tr7") auto
    have "filter is_attempt tr8 = filter is_attempt ?tr7 @ map (attempt_of ?doc) ?plan"
      using process_targets_attempts [OF assms(1), of ?doc "length ?plan" 0 ?plan ?tr7] r
      by simp
    moreover have "filter is_attempt ?tr7 = filter is_attempt tr"
      using quiet by (simp add: log_decls_attempts log_def)
    moreover have "snd (explodeDocument h tr)
       = log ''Explode Document finished'' tr8
           @ [ShowInformationMessage
                ''Explode Document finished. See the Output panel for logs'']"
      using assms(2,3) False w r by (simp add: explodeDocument_def Let_def)
    ultimately show ?thesis by (simp add: log_def extraction_plan_def)
  qed
qed

subsection \<open>Reaching the parser\<close>

text \<open>A run only adds to the trace. With an accepted document the command reaches the parser
  if the wait for the TypeScript extension returns, and it does whenever waking the extension
  does not reject with \<^verbatim>\<open>null\<close> or \<^verbatim>\<open>undefined\<close>.\<close>

lemma process_target_extends:
  "\<exists>evs. snd (process_target h doc len idx t tr) = tr @ evs"
proof -
  obtain pre where a: "announce_target doc len idx t tr = tr @ pre"
    by (simp add: announce_target_def log_def Let_def)
  obtain evs where p:
    "snd (try_provider h doc t (tr @ pre)) = (tr @ pre) @ evs"
    using try_provider_attempt by blast
  obtain used tr1 where u: "try_provider h doc t (tr @ pre) = (used, tr1)"
    by (cases "try_provider h doc t (tr @ pre)") auto
  then have tr1: "tr1 = tr @ (pre @ evs)" using p by simp
  obtain evs' where f: "snd (fallback_path h t tr1) = tr1 @ evs'"
    using fallback_path_attempt by blast
  have "snd (process_target h doc len idx t tr) = tr1
      \<or> snd (process_target h doc len idx t tr) = snd (fallback_path h t tr1)"
    unfolding process_target_def a u by (cases used) simp_all
  then show ?thesis
    unfolding f unfolding tr1 by (metis append.assoc)
qed

lemma process_targets_extends:
  "\<exists>evs. snd (process_targets h doc len dn ts tr) = tr @ evs"
proof (induction ts arbitrary: dn tr)
  case Nil
  then show ?case by simp
next
  case (Cons t ts)
  obtain r tr1 where r: "process_target h doc len (dn + 1) t tr = (r, tr1)"
    by (cases "process_target h doc len (dn + 1) t tr") auto
  then obtain evs where e: "tr1 = tr @ evs"
    using process_target_extends [of h doc len "dn + 1" t tr] by auto
  obtain evs' where "snd (process_targets h doc len (dn + 1) ts tr1) = tr1 @ evs'"
    using Cons.IH by blast
  then show ?case using r e by (cases r) auto
qed

lemma log_decls_extends: "\<exists>evs. log_decls doc len i ts tr = tr @ evs"
proof (induction ts arbitrary: i tr)
  case Nil
  then show ?case by simp
next
  case (Cons t ts)
  let ?l = "Log (''Decl '' @ show_nat (i + 1) @ ''/'' @ show_nat len @ '' label='' @ t_label t
             @ '' kind='' @ t_kind t @ '' range='' @ show_position (positionAt doc (t_start t))
             @ ''-'' @ show_position (positionAt doc (t_end t)))"
  obtain evs where "log_decls doc len (i + 1) ts (tr @ [?l]) = (tr @ [?l]) @ evs"
    using Cons.IH by blast
  then have "log_decls doc len i (t # ts) tr = tr @ (?l # evs)"
    by (simp add: log_def)
  then show ?case by blast
qed

lemma parse_reached_when_ready:
  assumes "activeTextEditor h = Some ed" and "isTSLike (document ed)"
    and "fst (waitForTypeScriptReady h (document ed)
           (tr @ [OutputShow, Log ''==== Explode Document invoked ===='',
                  Log (''Active document '' @ uri_fsPath (document ed) @ '' lang=''
                       @ languageId (document ed))])) = Inr ()"
  shows "parse_reached h tr"
proof -
  let ?doc = "document ed"
  let ?pre = "[OutputShow, Log ''==== Explode Document invoked ===='',
             Log (''Active document '' @ uri_fsPath ?doc @ '' lang='' @ languageId ?doc)]"
  let ?ts = "collect_targets (NodeFlags h) (createSourceFile h (fileName ?doc) (getText ?doc))"
  obtain evs where evs: "snd (waitForTypeScriptReady h ?doc (tr @ ?pre)) = (tr @ ?pre) @ evs"
    using waitForTypeScriptReady_events by blast
  then have w: "waitForTypeScriptReady h ?doc (tr @ ?pre) = (Inr (), (tr @ ?pre) @ evs)"
    using assms(3) by (cases "waitForTypeScriptReady h ?doc (tr @ ?pre)") simp
  have run: "explodeDocument h tr =
     (let sf = createSourceFile h (fileName ?doc) (getText ?doc);
          tr4 = (tr @ ?pre) @ evs @ [CreateSourceFile (fileName ?doc)];
          targets = collect_targets (NodeFlags h) sf
      in if length targets = 0 then
           (let msg = ''Explode Document: No top-level declarations found''
            in (Inr (), log msg tr4 @ [ShowInformationMessage msg]))
         else
           (let plan = sort_targets targets;
                tr5 = log (''Found '' @ show_nat (length plan) @ '' top-level decls'') tr4;
                tr6 = log_decls ?doc (length plan) 0 plan tr5;
                tr7 = tr6 @ [WithProgress ''Explode Document running'']
            in case process_targets h ?doc (length plan) 0 plan tr7 of
                 (Inl thrown, tr8) \<Rightarrow> (Inl thrown, tr8)
               | (Inr _, tr8) \<Rightarrow>
                   (Inr (),
                    log ''Explode Document finished'' tr8
                      @ [ShowInformationMessage
                           ''Explode Document finished. See the Output panel for logs''])))"
    using assms(1,2) w by (simp add: explodeDocument_def log_def Let_def)
  let ?tr4 = "(tr @ ?pre) @ evs @ [CreateSourceFile (fileName ?doc)]"
  have "\<exists>rest. snd (explodeDocument h tr) = ?tr4 @ rest"
  proof (cases "?ts = []")
    case True
    then show ?thesis
      unfolding run by (simp add: log_def Let_def)
  next
    case False
    let ?plan = "sort_targets ?ts"
    let ?tr5 = "log (''Found '' @ show_nat (length ?plan) @ '' top-level decls'') ?tr4"
    obtain ds where ds: "log_decls ?doc (length ?plan) 0 ?plan ?tr5 = ?tr5 @ ds"
      using log_decls_extends by blast
    let ?tr7 = "log_decls ?doc (length ?plan) 0 ?plan ?tr5
                  @ [WithProgress ''Explode Document running'']"
    obtain r tr8 where r: "process_targets h ?doc (length ?plan) 0 ?plan ?tr7 = (r, tr8)"
      by (cases "process_targets h ?doc (length ?plan) 0 ?plan ?tr7") auto
    obtain ps where ps:
      "snd (process_targets h ?doc (length ?plan) 0 ?plan ?tr7) = ?tr7 @ ps"
      using process_targets_extends by blast
    have "tr8 = snd (process_targets h ?doc (length ?plan) 0 ?plan ?tr7)"
      unfolding r by simp
    also have "\<dots> = ?tr7 @ ps"
      by (rule ps)
    also have "\<dots> = ?tr4 @ ([Log (''Found '' @ show_nat (length ?plan)
          @ '' top-level decls'')] @ ds @ [WithProgress ''Explode Document running''] @ ps)"
      unfolding ds by (simp add: log_def)
    finally have tr8: "tr8 = ?tr4 @ ([Log (''Found '' @ show_nat (length ?plan)
          @ '' top-level decls'')] @ ds @ [WithProgress ''Explode Document running''] @ ps)" .
    have "snd (explodeDocument h tr) = tr8
        \<or> snd (explodeDocument h tr) = tr8 @ [Log ''Explode Document finished'',
             ShowInformationMessage
               ''Explode Document finished. See the Output panel for logs'']"
      unfolding run using False r by (cases r) (simp_all add: Let_def log_def)
    then show ?thesis
      unfolding tr8 by (metis append.assoc)
  qed
  then obtain rest where "snd (explodeDocument h tr)
      = tr @ (?pre @ evs @ [CreateSourceFile (fileName ?doc)] @ rest)"
    by auto
  then show ?thesis
    by (simp add: parse_reached_def)
qed

lemma parse_reached_unless_nullish:
  assumes "activeTextEditor h = Some ed" and "isTSLike (document ed)"
    and "\<forall>tr. \<not> nullish (activate h tr)"
  shows "parse_reached h tr"
  using assms(1,2) waitForTypeScriptReady_activated [OF assms(3)]
  by (rule parse_reached_when_ready)

subsection \<open>What a failed round logs\<close>

text \<open>What a round logs when its \<^verbatim>\<open>try\<close> block is left by a rejection whose message can be
  read: a line with the label of the target and that message, and the round goes on to the
  fallback.\<close>

lemma provider_failure_logged:
  assumes "fst (provider_path h doc t (announce_target doc len idx t tr)) = Inl err"
    and "read_message err = Inr m"
  shows "process_target h doc len idx t tr =
     fallback_path h t
        (snd (provider_path h doc t (announce_target doc len idx t tr))
         @ [Log (''Provider execute failed for '' @ t_label t @ '': '' @ m)])"
  using assms
  by (cases "provider_path h doc t (announce_target doc len idx t tr)")
     (simp add: process_target_def try_provider_def log_def)

text \<open>And when reading the message throws: the round is left by the \<^verbatim>\<open>TypeError\<close>, and so
  are the loop and the command; nothing is logged.\<close>

lemma provider_failure_thrown:
  assumes "fst (provider_path h doc t (announce_target doc len idx t tr)) = Inl err"
    and "read_message err = Inl thrown"
  shows "process_target h doc len idx t tr =
     (Inl thrown, snd (provider_path h doc t (announce_target doc len idx t tr)))"
  using assms
  by (cases "provider_path h doc t (announce_target doc len idx t tr)")
     (simp add: process_target_def try_provider_def)

lemma thrown_round_ends_loop:
  assumes "fst (process_target h doc len (dn + 1) t tr) = Inl thrown"
  shows "process_targets h doc len dn (t # ts) tr = process_target h doc len (dn + 1) t tr"
  using assms by (cases "process_target h doc len (dn + 1) t tr") simp

lemma fallback_failure_logged:
  assumes "editorActionCodeAction h
     (tr @ [Log (''No provider-executed action for '' @ t_label t
                 @ ''. Fallback to editor.action.codeAction kind=refactor.move.newFile''),
            Log ''Invoke editor.action.codeAction with kind refactor.move.newFile and apply first'',
            EditorActionCodeAction ''refactor.move.newFile'']) = Inl err"
    and "read_message err = Inr m"
  shows "fallback_path h t tr =
     (Inr (),
      tr @ [Log (''No provider-executed action for '' @ t_label t
                 @ ''. Fallback to editor.action.codeAction kind=refactor.move.newFile''),
           Log ''Invoke editor.action.codeAction with kind refactor.move.newFile and apply first'',
           EditorActionCodeAction ''refactor.move.newFile'',
           Log (''editor.action.codeAction failed: '' @ m),
           Log (''Fallback codeAction executor did not apply for '' @ t_label t)])"
  using assms by (simp add: fallback_path_def executeEditorCodeAction_def log_def Let_def)

lemma failures_with_a_message_contained:
  "never_nullish failing_host
   \<and> fst (explodeDocument failing_host []) = Inr ()
   \<and> filter is_attempt (snd (explodeDocument failing_host []))
       = map (attempt_of index_doc) (extraction_plan NodeFlags_ts index_ts)
   \<and> length (filter is_attempt (snd (explodeDocument failing_host []))) = 5
   \<and> process_target failing_host index_doc 5 1 qux_target [] =
       fallback_path failing_host qux_target
          (snd (provider_path failing_host index_doc qux_target
                  (announce_target index_doc 5 1 qux_target []))
           @ [Log ''Provider execute failed for Qux: boom''])
   \<and> fallback_path failing_host qux_target [] =
       (Inr (),
        [Log ''No provider-executed action for Qux. Fallback to editor.action.codeAction kind=refactor.move.newFile'',
         Log ''Invoke editor.action.codeAction with kind refactor.move.newFile and apply first'',
         EditorActionCodeAction ''refactor.move.newFile'',
         Log ''editor.action.codeAction failed: no code action'',
         Log ''Fallback codeAction executor did not apply for Qux''])"
proof -
  let ?ed = "\<lparr>document = index_doc\<rparr>"
  have n: "never_nullish failing_host"
    by (simp add: never_nullish_def nullish_def failing_host_def index_host_def working_host_def)
  have a: "activeTextEditor failing_host = Some ?ed"
    by (simp add: failing_host_def index_host_def working_host_def)
  have b: "isTSLike (document ?ed)"
    by (simp add: isTSLike_def index_doc_def)
  have c: "fst (provider_path failing_host index_doc qux_target
              (announce_target index_doc 5 1 qux_target [])) = Inl (ErrorObject ''boom'')"
    by code_simp
  have d: "editorActionCodeAction failing_host x = Inl (ErrorObject ''no code action'')" for x
    by (simp add: failing_host_def index_host_def working_host_def)
  have e: "createSourceFile failing_host (fileName (document ?ed)) (getText (document ?ed))
      = index_ts" "NodeFlags failing_host = NodeFlags_ts"
    by (simp_all add: failing_host_def index_host_def working_host_def)
  have f: "length (extraction_plan NodeFlags_ts index_ts) = 5"
    by code_simp
  have g: "t_label qux_target = ''Qux''" by (simp add: qux_target_def)
  show ?thesis
    using explodeDocument_returns [OF n, of "[]"] explodeDocument_attempts [OF n a b, of "[]"]
      provider_failure_logged [OF c, of "''boom''"]
      fallback_failure_logged [where h = failing_host and tr = "[]" and t = qux_target
        and m = "''no code action''", OF d]
      n e f g
    by simp
qed

text \<open>A rejection of the query with a kind is caught inside \<^verbatim>\<open>queryMoveNewFileActions\<close>:
  the line logged for it has the message, and no label.\<close>

lemma kind_query_rejection_logged:
  "process_target (kind_query_rejecting_host (ErrorObject ''boom'')) index_doc 5 1
       qux_target [] =
     (Inr (),
      [SetSelection (5, 17) (5, 20), RevealRange (5, 17) (5, 20),
       ProgressReport ''Processing 1/5 Qux'',
       Log ''Processing 1/5 label=Qux set selection and reveal'',
       Log ''Query provider with kind refactor.move.newFile at 5:17-5:20'',
       ExecuteCodeActionProvider ''/ws/index.ts'' (5, 17) (5, 20)
         (Some ''refactor.move.newFile''),
       Log ''Provider kind query rejected: boom'',
       Log ''Query provider without kind and filter client-side'',
       ExecuteCodeActionProvider ''/ws/index.ts'' (5, 17) (5, 20) None,
       Log ''Provider no-kind returned 1 actions, filtered to 1'',
       Log ''Provider path candidate count for Qux: 1'',
       Log (''Executing CodeAction via vscode.executeCodeAction title='' @ [CHR 0x22]
              @ ''Move to a new file'' @ [CHR 0x22] @ '' kind='' @ [CHR 0x22]
              @ ''refactor.move.newFile'' @ [CHR 0x22]),
       ExecuteCodeAction move_action,
       Sleep 120])"
  by code_simp

text \<open>
  \<^bold>\<open>C9.\<close> A failure of one target is not always contained. In the end-to-end file, let
  running the code action found for a target reject.

  \<^item> When it rejects with \<^verbatim>\<open>undefined\<close>, the handler of the first round throws a \<^verbatim>\<open>TypeError\<close>
    on reading \<^verbatim>\<open>.message\<close>. The command is left by that error: of the five targets of the
    plan only the first is attempted, the last thing in the trace is the run of the action,
    no line with the label is logged for the failure, and no message is shown.
  \<^item> When it rejects with the string \<^verbatim>\<open>disk full\<close>, the command returns and attempts all five
    targets, but the line logged for the failure of the first round ends in \<^verbatim>\<open>undefined\<close>:
    the text that was rejected with is not in it.

  In the other \<^verbatim>\<open>explodeDocument\<close> the query for the code actions stands outside the \<^verbatim>\<open>try\<close>:
  when it rejects with an \<^verbatim>\<open>Error\<close>, the command is left by that error in the first of five
  rounds and shows no warning.
\<close>

theorem failure_leaves_the_loop:
  "explodeDocument (action_rejecting_host JsUndefined) [] =
     (Inl (cannot_read_message JsUndefined),
      [OutputShow, Log ''==== Explode Document invoked ===='',
       Log ''Active document /ws/index.ts lang=typescript'',
       Log ''Activating TypeScript extension vscode.typescript-language-features'',
       ActivateExtension ''vscode.typescript-language-features'',
       Log ''TypeScript extension activated'',
       Log ''Diagnostics check 1 ok for /ws/index.ts'',
       CreateSourceFile ''/ws/index.ts'', Log ''Found 5 top-level decls'',
       Log ''Decl 1/5 label=Qux kind=Variable range=5:17-5:20'',
       Log ''Decl 2/5 label=bar kind=FunctionDeclaration range=4:20-4:23'',
       Log ''Decl 3/5 label=K kind=EnumDeclaration range=3:16-3:17'',
       Log ''Decl 4/5 label=Baz kind=InterfaceDeclaration range=2:21-2:24'',
       Log ''Decl 5/5 label=Foo kind=ClassDeclaration range=1:17-1:20'',
       WithProgress ''Explode Document running'',
       SetSelection (5, 17) (5, 20), RevealRange (5, 17) (5, 20),
       ProgressReport ''Processing 1/5 Qux'',
       Log ''Processing 1/5 label=Qux set selection and reveal'',
       Log ''Query provider with kind refactor.move.newFile at 5:17-5:20'',
       ExecuteCodeActionProvider ''/ws/index.ts'' (5, 17) (5, 20)
         (Some ''refactor.move.newFile''),
       Log ''Provider returned 1 actions, filtered to 1 by kind'',
       Log ''Provider path candidate count for Qux: 1'',
       Log (''Executing CodeAction via vscode.executeCodeAction title='' @ [CHR 0x22]
              @ ''Move to a new file'' @ [CHR 0x22] @ '' kind='' @ [CHR 0x22]
              @ ''refactor.move.newFile'' @ [CHR 0x22]),
       ExecuteCodeAction move_action])
   \<and> map t_label (extraction_plan NodeFlags_ts index_ts)
       = [''Qux'', ''bar'', ''K'', ''Baz'', ''Foo'']
   \<and> filter is_attempt (snd (explodeDocument (action_rejecting_host JsUndefined) []))
       = [attempt_of index_doc qux_target]
   \<and> filter is_notification (snd (explodeDocument (action_rejecting_host JsUndefined) [])) = []
   \<and> fst (explodeDocument (action_rejecting_host (OtherValue ''disk full'' None)) []) = Inr ()
   \<and> length (filter is_attempt
         (snd (explodeDocument (action_rejecting_host (OtherValue ''disk full'' None)) []))) = 5
   \<and> process_target (action_rejecting_host (OtherValue ''disk full'' None)) index_doc 5 1
       qux_target [] =
     (Inr (),
      [SetSelection (5, 17) (5, 20), RevealRange (5, 17) (5, 20),
       ProgressReport ''Processing 1/5 Qux'',
       Log ''Processing 1/5 label=Qux set selection and reveal'',
       Log ''Query provider with kind refactor.move.newFile at 5:17-5:20'',
       ExecuteCodeActionProvider ''/ws/index.ts'' (5, 17) (5, 20)
         (Some ''refactor.move.newFile''),
       Log ''Provider returned 1 actions, filtered to 1 by kind'',
       Log ''Provider path candidate count for Qux: 1'',
       Log (''Executing CodeAction via vscode.executeCodeAction title='' @ [CHR 0x22]
              @ ''Move to a new file'' @ [CHR 0x22] @ '' kind='' @ [CHR 0x22]
              @ ''refactor.move.newFile'' @ [CHR 0x22]),
       ExecuteCodeAction move_action,
       Log ''Provider execute failed for Qux: undefined'',
       Log ''No provider-executed action for Qux. Fallback to editor.action.codeAction kind=refactor.move.newFile'',
       Log ''Invoke editor.action.codeAction with kind refactor.move.newFile and apply first'',
       EditorActionCodeAction ''refactor.move.newFile'',
       Log ''Fallback applied for Qux'', Sleep 150])
   \<and> explodeDocument_v1 (query_rejecting_host (ErrorObject ''boom'')) [] =
     (Inl (ErrorObject ''boom''),
      [CreateSourceFile ''/ws/index.ts'',
       WithProgress ''Explode Document: Move each decl to a new file'',
       ProgressReport ''Processing 1/5'',
       ExecuteCodeActionProvider ''/ws/index.ts'' (1, 17) (1, 20)
         (Some ''refactor.move.newFile'')])"
proof -
  let ?s = "action_rejecting_host (OtherValue ''disk full'' None)"
  let ?ed = "\<lparr>document = index_doc\<rparr>"
  have a: "explodeDocument (action_rejecting_host JsUndefined) [] =
     (Inl (cannot_read_message JsUndefined),
      [OutputShow, Log ''==== Explode Document invoked ===='',
       Log ''Active document /ws/index.ts lang=typescript'',
       Log ''Activating TypeScript extension vscode.typescript-language-features'',
       ActivateExtension ''vscode.typescript-language-features'',
       Log ''TypeScript extension activated'',
       Log ''Diagnostics check 1 ok for /ws/index.ts'',
       CreateSourceFile ''/ws/index.ts'', Log ''Found 5 top-level decls'',
       Log ''Decl 1/5 label=Qux kind=Variable range=5:17-5:20'',
       Log ''Decl 2/5 label=bar kind=FunctionDeclaration range=4:20-4:23'',
       Log ''Decl 3/5 label=K kind=EnumDeclaration range=3:16-3:17'',
       Log ''Decl 4/5 label=Baz kind=InterfaceDeclaration range=2:21-2:24'',
       Log ''Decl 5/5 label=Foo kind=ClassDeclaration range=1:17-1:20'',
       WithProgress ''Explode Document running'',
       SetSelection (5, 17) (5, 20), RevealRange (5, 17) (5, 20),
       ProgressReport ''Processing 1/5 Qux'',
       Log ''Processing 1/5 label=Qux set selection and reveal'',
       Log ''Query provider with kind refactor.move.newFile at 5:17-5:20'',
       ExecuteCodeActionProvider ''/ws/index.ts'' (5, 17) (5, 20)
         (Some ''refactor.move.newFile''),
       Log ''Provider returned 1 actions, filtered to 1 by kind'',
       Log ''Provider path candidate count for Qux: 1'',
       Log (''Executing CodeAction via vscode.executeCodeAction title='' @ [CHR 0x22]
              @ ''Move to a new file'' @ [CHR 0x22] @ '' kind='' @ [CHR 0x22]
              @ ''refactor.move.newFile'' @ [CHR 0x22]),
       ExecuteCodeAction move_action])"
    by code_simp
  have b: "map t_label (extraction_plan NodeFlags_ts index_ts)
       = [''Qux'', ''bar'', ''K'', ''Baz'', ''Foo'']"
    by code_simp
  have q: "attempt_of index_doc qux_target
     = ExecuteCodeActionProvider ''/ws/index.ts'' (5, 17) (5, 20) (Some ''refactor.move.newFile'')"
    by code_simp
  have c: "filter is_attempt (snd (explodeDocument (action_rejecting_host JsUndefined) []))
       = [attempt_of index_doc qux_target]"
    unfolding a q by simp
  have d: "filter is_notification
       (snd (explodeDocument (action_rejecting_host JsUndefined) [])) = []"
    unfolding a by simp
  have n: "never_nullish ?s"
    by (simp add: never_nullish_def nullish_def action_rejecting_host_def index_host_def
        working_host_def)
  have s: "activeTextEditor ?s = Some ?ed" "isTSLike (document ?ed)"
    "createSourceFile ?s (fileName (document ?ed)) (getText (document ?ed)) = index_ts"
    "NodeFlags ?s = NodeFlags_ts"
    by (simp_all add: action_rejecting_host_def index_host_def working_host_def isTSLike_def
        index_doc_def)
  have e: "fst (explodeDocument ?s []) = Inr ()"
    using n by (rule explodeDocument_returns)
  have "length (extraction_plan NodeFlags_ts index_ts) = 5"
    using arg_cong [OF b, of length] by simp
  then have f: "length (filter is_attempt (snd (explodeDocument ?s []))) = 5"
    using explodeDocument_attempts [OF n s(1,2), of "[]"] s(3,4) by simp
  have g: "process_target (action_rejecting_host (OtherValue ''disk full'' None)) index_doc 5 1
       qux_target [] =
     (Inr (),
      [SetSelection (5, 17) (5, 20), RevealRange (5, 17) (5, 20),
       ProgressReport ''Processing 1/5 Qux'',
       Log ''Processing 1/5 label=Qux set selection and reveal'',
       Log ''Query provider with kind refactor.move.newFile at 5:17-5:20'',
       ExecuteCodeActionProvider ''/ws/index.ts'' (5, 17) (5, 20)
         (Some ''refactor.move.newFile''),
       Log ''Provider returned 1 actions, filtered to 1 by kind'',
       Log ''Provider path candidate count for Qux: 1'',
       Log (''Executing CodeAction via vscode.executeCodeAction title='' @ [CHR 0x22]
              @ ''Move to a new file'' @ [CHR 0x22] @ '' kind='' @ [CHR 0x22]
              @ ''refactor.move.newFile'' @ [CHR 0x22]),
       ExecuteCodeAction move_action,
       Log ''Provider execute failed for Qux: undefined'',
       Log ''No provider-executed action for Qux. Fallback to editor.action.codeAction kind=refactor.move.newFile'',
       Log ''Invoke editor.action.codeAction with kind refactor.move.newFile and apply first'',
       EditorActionCodeAction ''refactor.move.newFile'',
       Log ''Fallback applied for Qux'', Sleep 150])"
    by code_simp
  have h: "explodeDocument_v1 (query_rejecting_host (ErrorObject ''boom'')) [] =
     (Inl (ErrorObject ''boom''),
      [CreateSourceFile ''/ws/index.ts'',
       WithProgress ''Explode Document: Move each decl to a new file'',
       ProgressReport ''Processing 1/5'',
       ExecuteCodeActionProvider ''/ws/index.ts'' (1, 17) (1, 20)
         (Some ''refactor.move.newFile'')])"
    by code_simp
  show ?thesis by (intro conjI a b c d e f g h)
qed

end
